theory Spec2Isabelle
  imports Complex_Main
begin

section \<open>TangentCNC: path sampling, G-code generation, parsing and playback\<close>

text \<open>
  The development embeds the G-code engine of \<^verbatim>\<open>script.js\<close> (first copy, lines 1 to 1320;
  the second copy is referred to where it differs).

  Numbers. A JavaScript number is an IEEE-754 double, and the development has two
  embeddings. In the first, a finite number is a real number and the arithmetic is exact.
  It serves the claims about text and structure (the two parsers, the segments of the
  playback path) and the evaluation of the generators on inputs where every operation of
  the source is exact. In the second, whose functions carry the suffix \<open>_fl\<close>, every
  arithmetic operation is rounded to binary64 and a loop of the source that does not end
  has the result \<open>None\<close>. It serves the claims that depend on rounding or on the termination
  of a loop. Overflow and the sign of zero are modelled in neither. Where the source can
  meet a non-finite number (the scale factor, which \<^verbatim>\<open>parseGCode\<close> guards), the type \<open>jsnum\<close>
  adds \<^verbatim>\<open>NaN\<close> and the two infinities.

  Text. A JavaScript string is modelled as a \<^typ>\<open>string\<close>, one \<^typ>\<open>char\<close> per code unit
  below 256.
\<close>

subsection \<open>Machine settings\<close>

datatype jsnum = Finite real | NaN | PosInf | NegInf

record machineSettings =
  unit :: string
  scaleFactor :: jsnum
  safeHeight :: real
  cutDepth :: real
  feedRate :: real
  rapidRate :: real
  angleMode :: string
  angleOffset :: real
  shortestPath :: bool
  toolOffsetX :: real
  toolOffsetY :: real

subsection \<open>Heading computation\<close>

text \<open>The remainder operator \<^verbatim>\<open>a % b\<close> of JavaScript truncates the quotient towards zero, so
  the result has the sign of the dividend.\<close>

definition trunc :: "real \<Rightarrow> int" where
  "trunc x = (if 0 \<le> x then \<lfloor>x\<rfloor> else \<lceil>x\<rceil>)"

definition jsmod :: "real \<Rightarrow> real \<Rightarrow> real" where
  "jsmod a b = a - b * of_int (trunc (a / b))"

text \<open>\<^verbatim>\<open>Math.atan2(y, x)\<close>, with both zeros identified.\<close>

definition atan2 :: "real \<Rightarrow> real \<Rightarrow> real" where
  "atan2 y x =
     (if 0 < x then arctan (y / x)
      else if x < 0 then (if 0 \<le> y then arctan (y / x) + pi else arctan (y / x) - pi)
      else if 0 < y then pi / 2
      else if y < 0 then - (pi / 2)
      else 0)"

text \<open>\<^verbatim>\<open>angleDeg(dx, dyCanvas)\<close>: the canvas \<open>dy\<close> (down positive) is negated first.\<close>

definition angleDeg :: "real \<Rightarrow> real \<Rightarrow> real" where
  "angleDeg dx dyCanvas =
     (let dy = - dyCanvas;
          ang = atan2 dy dx * 180 / pi
      in jsmod (jsmod ang 360 + 360) 360)"

text \<open>The two loops of \<^verbatim>\<open>normalizeAngle\<close> and \<^verbatim>\<open>getAngleDifference\<close>:
  \<^verbatim>\<open>while (v > 180) v -= 360;\<close> and \<^verbatim>\<open>while (v <= -180) v += 360;\<close>.\<close>

function while_gt_180 :: "real \<Rightarrow> real" where
  "while_gt_180 v = (if v > 180 then while_gt_180 (v - 360) else v)"
  by pat_completeness auto
termination
proof (relation "measure (\<lambda>v. nat \<lceil>v / 360\<rceil>)")
  show "wf (measure (\<lambda>v::real. nat \<lceil>v / 360\<rceil>))" by simp
next
  fix v :: real
  assume h: "180 < v"
  have "\<lceil>(v - 360) / 360\<rceil> = \<lceil>v / 360\<rceil> - 1"
    by (simp add: diff_divide_distrib)
  moreover from h have "0 < \<lceil>v / 360\<rceil>" by (simp add: ceiling_less_iff)
  ultimately show "(v - 360, v) \<in> measure (\<lambda>v. nat \<lceil>v / 360\<rceil>)" by simp
qed

function while_le_m180 :: "real \<Rightarrow> real" where
  "while_le_m180 v = (if v \<le> - 180 then while_le_m180 (v + 360) else v)"
  by pat_completeness auto
termination
proof (relation "measure (\<lambda>v. nat (1 - \<lfloor>v / 360\<rfloor>))")
  show "wf (measure (\<lambda>v::real. nat (1 - \<lfloor>v / 360\<rfloor>)))" by simp
next
  fix v :: real
  assume h: "v \<le> - 180"
  have "\<lfloor>(v + 360) / 360\<rfloor> = \<lfloor>v / 360\<rfloor> + 1"
    by (simp add: add_divide_distrib)
  moreover from h have "\<lfloor>v / 360\<rfloor> < 0" by (simp add: floor_less_iff)
  ultimately show "(v + 360, v) \<in> measure (\<lambda>v. nat (1 - \<lfloor>v / 360\<rfloor>))" by simp
qed

declare while_gt_180.simps [simp del] while_le_m180.simps [simp del]

text \<open>\<^verbatim>\<open>normalizeAngle(angle, prevAngle = null)\<close>; \<^verbatim>\<open>null\<close> is \<open>None\<close>.\<close>

definition normalizeAngle :: "machineSettings \<Rightarrow> real \<Rightarrow> real option \<Rightarrow> real" where
  "normalizeAngle cfg angle prevAngle =
     (let normalized = angle + angleOffset cfg;
          normalized =
            (if angleMode cfg = ''-180-180''
             then while_le_m180 (while_gt_180 normalized)
             else jsmod (jsmod normalized 360 + 360) 360)
      in case prevAngle of
           None \<Rightarrow> normalized
         | Some prev \<Rightarrow>
             if shortestPath cfg then
               (let diff = normalized - prev
                in if diff > 180 then normalized - 360
                   else if diff < - 180 then normalized + 360
                   else normalized)
             else normalized)"

text \<open>\<^verbatim>\<open>getAngleDifference(angle1, angle2)\<close>.\<close>

definition getAngleDifference :: "real \<Rightarrow> real \<Rightarrow> real" where
  "getAngleDifference angle1 angle2 =
     (let diff = angle2 - angle1
      in \<bar>while_le_m180 (while_gt_180 diff)\<bar>)"

text \<open>The initial value of \<^verbatim>\<open>machineSettings\<close> (source lines 14 to 26).\<close>

definition defaultSettings :: machineSettings where
  "defaultSettings = \<lparr> unit = ''mm'', scaleFactor = Finite (1 / 10), safeHeight = 5,
     cutDepth = - 1, feedRate = 300, rapidRate = 1000, angleMode = ''-180-180'',
     angleOffset = 0, shortestPath = True, toolOffsetX = 0, toolOffsetY = 0 \<rparr>"

subsection \<open>Arithmetic on numbers that may be non-finite\<close>

text \<open>The operators of JavaScript on \<open>jsnum\<close>. A zero divisor is taken as \<open>+0\<close>; every
  comparison with \<^verbatim>\<open>NaN\<close> is false.\<close>

fun jneg :: "jsnum \<Rightarrow> jsnum" where
  "jneg (Finite a) = Finite (- a)"
| "jneg NaN = NaN"
| "jneg PosInf = NegInf"
| "jneg NegInf = PosInf"

fun jadd :: "jsnum \<Rightarrow> jsnum \<Rightarrow> jsnum" where
  "jadd (Finite a) (Finite b) = Finite (a + b)"
| "jadd NaN _ = NaN"
| "jadd _ NaN = NaN"
| "jadd PosInf NegInf = NaN"
| "jadd NegInf PosInf = NaN"
| "jadd PosInf _ = PosInf"
| "jadd NegInf _ = NegInf"
| "jadd _ PosInf = PosInf"
| "jadd _ NegInf = NegInf"

definition jsub :: "jsnum \<Rightarrow> jsnum \<Rightarrow> jsnum" where
  "jsub a b = jadd a (jneg b)"

definition jsign :: "jsnum \<Rightarrow> int" where
  "jsign a = (case a of Finite x \<Rightarrow> (if x < 0 then - 1 else if x = 0 then 0 else 1)
                | NaN \<Rightarrow> 0 | PosInf \<Rightarrow> 1 | NegInf \<Rightarrow> - 1)"

definition jinf :: "int \<Rightarrow> jsnum" where
  "jinf s = (if s < 0 then NegInf else if s = 0 then NaN else PosInf)"

fun jmul :: "jsnum \<Rightarrow> jsnum \<Rightarrow> jsnum" where
  "jmul (Finite a) (Finite b) = Finite (a * b)"
| "jmul NaN _ = NaN"
| "jmul _ NaN = NaN"
| "jmul a b = jinf (jsign a * jsign b)"

fun jdiv :: "jsnum \<Rightarrow> jsnum \<Rightarrow> jsnum" where
  "jdiv (Finite a) (Finite b) = (if b = 0 then jinf (jsign (Finite a)) else Finite (a / b))"
| "jdiv NaN _ = NaN"
| "jdiv _ NaN = NaN"
| "jdiv (Finite a) _ = Finite 0"
| "jdiv a (Finite b) = jinf (jsign a * (if b < 0 then - 1 else 1))"
| "jdiv _ _ = NaN"

fun jle :: "jsnum \<Rightarrow> jsnum \<Rightarrow> bool" where
  "jle (Finite a) (Finite b) = (a \<le> b)"
| "jle NaN _ = False"
| "jle _ NaN = False"
| "jle NegInf _ = True"
| "jle _ PosInf = True"
| "jle _ _ = False"

fun jlt :: "jsnum \<Rightarrow> jsnum \<Rightarrow> bool" where
  "jlt (Finite a) (Finite b) = (a < b)"
| "jlt NaN _ = False"
| "jlt _ NaN = False"
| "jlt PosInf _ = False"
| "jlt _ NegInf = False"
| "jlt _ _ = True"

text \<open>\<^verbatim>\<open>Math.hypot(a, b)\<close>: infinite when an argument is infinite, else \<^verbatim>\<open>NaN\<close> when one is.\<close>

fun jhypot :: "jsnum \<Rightarrow> jsnum \<Rightarrow> jsnum" where
  "jhypot (Finite a) (Finite b) = Finite (sqrt (a * a + b * b))"
| "jhypot PosInf _ = PosInf"
| "jhypot NegInf _ = PosInf"
| "jhypot _ PosInf = PosInf"
| "jhypot _ NegInf = PosInf"
| "jhypot _ _ = NaN"

text \<open>Truthiness of a number: \<open>0\<close> and \<^verbatim>\<open>NaN\<close> are falsy, so \<^verbatim>\<open>n || d\<close> is \<open>d\<close> for them.\<close>

definition falsy :: "jsnum \<Rightarrow> bool" where
  "falsy n = (n = Finite 0 \<or> n = NaN)"

definition or_else :: "jsnum \<Rightarrow> jsnum \<Rightarrow> jsnum" where
  "or_else n d = (if falsy n then d else n)"

definition isFinite :: "jsnum \<Rightarrow> bool" where
  "isFinite n = (case n of Finite _ \<Rightarrow> True | _ \<Rightarrow> False)"

subsection \<open>Text primitives\<close>

definition isDigit :: "char \<Rightarrow> bool" where
  "isDigit c = (c \<in> set ''0123456789'')"

text \<open>The class \<^verbatim>\<open>\s\<close> and the characters that \<^verbatim>\<open>trim()\<close> removes: tab, line feed, vertical
  tab, form feed, carriage return, space and no-break space (the others lie above 255).\<close>

definition isSpace :: "char \<Rightarrow> bool" where
  "isSpace c = (c \<in> set [CHR 0x09, CHR 0x0A, CHR 0x0B, CHR 0x0C, CHR 0x0D, CHR 0x20, CHR 0xA0])"

text \<open>The characters that \<^verbatim>\<open>.\<close> does not match.\<close>

definition isLineTerminator :: "char \<Rightarrow> bool" where
  "isLineTerminator c = (c = CHR 0x0A \<or> c = CHR 0x0D)"

text \<open>\<^verbatim>\<open>text.split(/\r?\n/)\<close>. A carriage return directly before a line feed belongs to the
  separator and is dropped; the line feed then ends the line.\<close>

fun split_lines :: "string \<Rightarrow> string list" where
  "split_lines [] = [[]]"
| "split_lines (c # cs) =
     (if c = CHR 0x0A then [] # split_lines cs
      else if c = CHR 0x0D \<and> take 1 cs = [CHR 0x0A] then split_lines cs
      else (case split_lines cs of [] \<Rightarrow> [[c]] | l # ls \<Rightarrow> (c # l) # ls))"

text \<open>\<^verbatim>\<open>lines.join("\n")\<close>.\<close>

fun join_lines :: "string list \<Rightarrow> string" where
  "join_lines [] = []"
| "join_lines [l] = l"
| "join_lines (l # ls) = l @ CHR 0x0A # join_lines ls"

text \<open>\<^verbatim>\<open>raw.replace(/;.*$/, '')\<close>: the text from the first semicolon that is followed by no
  line terminator up to the end is removed.\<close>

fun strip_semicolon :: "string \<Rightarrow> string" where
  "strip_semicolon [] = []"
| "strip_semicolon (c # cs) =
     (if c = CHR '';'' \<and> list_all (\<lambda>d. \<not> isLineTerminator d) cs then []
      else c # strip_semicolon cs)"

text \<open>\<^verbatim>\<open>.replace(/\(.*?\)/g, '')\<close>: every parenthesis that is closed before a line terminator
  is removed with its content, up to the nearest closing parenthesis.\<close>

function strip_parens :: "string \<Rightarrow> string" where
  "strip_parens [] = []"
| "strip_parens (c # cs) =
     (if c = CHR ''('' \<and> dropWhile (\<lambda>d. d \<noteq> CHR '')'') cs \<noteq> []
         \<and> list_all (\<lambda>d. \<not> isLineTerminator d) (takeWhile (\<lambda>d. d \<noteq> CHR '')'') cs)
      then strip_parens (tl (dropWhile (\<lambda>d. d \<noteq> CHR '')'') cs))
      else c # strip_parens cs)"
  by pat_completeness auto
termination
proof (relation "measure length")
  show "wf (measure (length :: string \<Rightarrow> nat))" by simp
next
  fix c :: char and cs :: string
  have "length (dropWhile (\<lambda>d. d \<noteq> CHR '')'') cs) \<le> length cs"
    by (rule length_dropWhile_le)
  then have "length (tl (dropWhile (\<lambda>d. d \<noteq> CHR '')'') cs)) \<le> length cs"
    by simp
  then show "(tl (dropWhile (\<lambda>d. d \<noteq> CHR '')'') cs), c # cs) \<in> measure length" by simp
next
  fix c :: char and cs :: string
  show "(cs, c # cs) \<in> measure length" by simp
qed

text \<open>\<^verbatim>\<open>.trim()\<close>.\<close>

definition trim :: "string \<Rightarrow> string" where
  "trim s = rev (dropWhile isSpace (rev (dropWhile isSpace s)))"

text \<open>\<^verbatim>\<open>/[xX]/.test(line)\<close> and its siblings: some character is one of the two letters.\<close>

definition test_letter :: "char \<Rightarrow> char \<Rightarrow> string \<Rightarrow> bool" where
  "test_letter l u line = list_ex (\<lambda>c. c = l \<or> c = u) line"

text \<open>\<^verbatim>\<open>/[gG][0-9]+/.test(line)\<close>.\<close>

fun test_G_digits :: "string \<Rightarrow> bool" where
  "test_G_digits (a # b # cs) =
     (((a = CHR ''g'' \<or> a = CHR ''G'') \<and> isDigit b) \<or> test_G_digits (b # cs))"
| "test_G_digits _ = False"

text \<open>\<^verbatim>\<open>/[gG]0\s/.test(line)\<close> and \<^verbatim>\<open>/[gG]1\s/.test(line)\<close>, for the digit \<open>d\<close>.\<close>

fun test_G_space :: "char \<Rightarrow> string \<Rightarrow> bool" where
  "test_G_space d (a # b # c # cs) =
     (((a = CHR ''g'' \<or> a = CHR ''G'') \<and> b = d \<and> isSpace c) \<or> test_G_space d (b # c # cs))"
| "test_G_space d _ = False"

text \<open>\<^verbatim>\<open>line.match(/[gG]([01])\s/)\<close>: the captured digit of the leftmost match.\<close>

fun match_G01 :: "string \<Rightarrow> char option" where
  "match_G01 (a # b # c # cs) =
     (if (a = CHR ''g'' \<or> a = CHR ''G'') \<and> (b = CHR ''0'' \<or> b = CHR ''1'') \<and> isSpace c
      then Some b else match_G01 (b # c # cs))"
| "match_G01 _ = None"

text \<open>The group \<^verbatim>\<open>(-?\d*\.?\d+)\<close> matched at the start of \<open>s\<close>. After an optional minus sign
  the greedy match takes the longest run of digits and, when a dot and at least one digit
  follow, the dot and the digits after it; otherwise the run of digits alone, which must
  then be non-empty.\<close>

definition num_capture :: "string \<Rightarrow> string option" where
  "num_capture s =
     (let sgn = (if take 1 s = ''-'' then ''-'' else []);
          r = (if take 1 s = ''-'' then drop 1 s else s);
          ds = takeWhile isDigit r;
          r' = dropWhile isDigit r;
          fs = (if take 1 r' = ''.'' then takeWhile isDigit (drop 1 r') else [])
      in if fs \<noteq> [] then Some (sgn @ ds @ ''.'' @ fs)
         else if ds \<noteq> [] then Some (sgn @ ds)
         else None)"

text \<open>\<^verbatim>\<open>line.match(/[xX](-?\d*\.?\d+)/)\<close> and its siblings for the other letters: the group
  of the leftmost match, \<open>None\<close> for \<^verbatim>\<open>null\<close>.\<close>

fun match_field :: "char \<Rightarrow> char \<Rightarrow> string \<Rightarrow> string option" where
  "match_field l u [] = None"
| "match_field l u (c # cs) =
     (if c = l \<or> c = u then
        (case num_capture cs of Some m \<Rightarrow> Some m | None \<Rightarrow> match_field l u cs)
      else match_field l u cs)"

text \<open>The value of a string of decimal digits.\<close>

definition digit_val :: "char \<Rightarrow> nat" where
  "digit_val c = of_char c - 48"

definition dec_val :: "string \<Rightarrow> nat" where
  "dec_val ds = foldl (\<lambda>n c. 10 * n + digit_val c) 0 ds"

text \<open>\<^verbatim>\<open>parseFloat\<close> on a string of the shape that \<open>num_capture\<close> returns (an optional minus
  sign, digits, and an optional dot with digits): its decimal value. On such a string
  \<^verbatim>\<open>parseFloat\<close> never yields \<^verbatim>\<open>NaN\<close>.\<close>

definition parseFloat :: "string \<Rightarrow> real" where
  "parseFloat s =
     (let neg = (take 1 s = ''-'');
          r = (if neg then drop 1 s else s);
          ds = takeWhile isDigit r;
          r' = dropWhile isDigit r;
          fs = (if take 1 r' = ''.'' then takeWhile isDigit (drop 1 r') else []);
          v = real (dec_val ds) + real (dec_val fs) / 10 ^ length fs
      in if neg then - v else v)"

subsection \<open>Number formatting\<close>

text \<open>The host: the clock behind \<^verbatim>\<open>new Date().toISOString()\<close> and the conversion of a finite
  number to a string (\<^verbatim>\<open>Number::toString\<close>), which template literals use and to which
  \<^verbatim>\<open>toFixed\<close> resorts from \<open>10\<^sup>2\<^sup>1\<close> on.\<close>

record host =
  nowISO :: string
  numberToString :: "real \<Rightarrow> string"

definition toString :: "host \<Rightarrow> jsnum \<Rightarrow> string" where
  "toString h n = (case n of Finite x \<Rightarrow> numberToString h x | NaN \<Rightarrow> ''NaN''
                     | PosInf \<Rightarrow> ''Infinity'' | NegInf \<Rightarrow> ''-Infinity'')"

definition digit_char :: "nat \<Rightarrow> char" where
  "digit_char d = ''0123456789'' ! d"

fun digits_of :: "nat \<Rightarrow> string" where
  "digits_of n = (if n < 10 then [digit_char n] else digits_of (n div 10) @ [digit_char (n mod 10)])"

declare digits_of.simps [simp del]

text \<open>\<^verbatim>\<open>x.toFixed(3)\<close> for a finite \<open>x\<close>: the sign, then the integer \<open>n\<close> nearest to
  \<open>|x| * 1000\<close> (the larger one on a tie), written with at least four digits and a dot
  before the last three.\<close>

definition toFixed3 :: "host \<Rightarrow> real \<Rightarrow> string" where
  "toFixed3 h x =
     (let s = (if x < 0 then ''-'' else []);
          ax = \<bar>x\<bar>
      in if 10 ^ 21 \<le> ax then s @ numberToString h ax
         else
           (let n = nat \<lfloor>ax * 1000 + 1 / 2\<rfloor>;
                m = digits_of n;
                m = (if length m \<le> 3 then replicate (4 - length m) CHR ''0'' @ m else m);
                k = length m
            in s @ take (k - 3) m @ ''.'' @ drop (k - 3) m))"

text \<open>\<^verbatim>\<open>formatNum(n)\<close>, that is \<^verbatim>\<open>Number.parseFloat(n).toFixed(3)\<close> for a number \<open>n\<close>.\<close>

definition formatNum :: "host \<Rightarrow> jsnum \<Rightarrow> string" where
  "formatNum h n = (case n of Finite x \<Rightarrow> toFixed3 h x | _ \<Rightarrow> toString h n)"

subsection \<open>Spline sampler\<close>

text \<open>A control point or polyline sample \<^verbatim>\<open>{x, y}\<close>.\<close>

record point =
  px :: real
  py :: real

text \<open>\<^verbatim>\<open>catmullRomSpline(p0, p1, p2, p3, t)\<close>.\<close>

definition catmullRomSpline :: "point \<Rightarrow> point \<Rightarrow> point \<Rightarrow> point \<Rightarrow> real \<Rightarrow> point" where
  "catmullRomSpline p0 p1 p2 p3 t =
     (let t2 = t * t;
          t3 = t2 * t;
          x = 0.5 * ((2 * px p1) + (- px p0 + px p2) * t
                + (2 * px p0 - 5 * px p1 + 4 * px p2 - px p3) * t2
                + (- px p0 + 3 * px p1 - 3 * px p2 + px p3) * t3);
          y = 0.5 * ((2 * py p1) + (- py p0 + py p2) * t
                + (2 * py p0 - 5 * py p1 + 4 * py p2 - py p3) * t2
                + (- py p0 + 3 * py p1 - 3 * py p2 + py p3) * t3)
      in \<lparr> px = x, py = y \<rparr>)"

text \<open>The resolution \<^verbatim>\<open>curveResolution\<close> is a natural number \<open>r\<close>. The two sweeps are the loops
  \<^verbatim>\<open>for (let t = 1 / r; t <= 1 + 1e-9; t += 1 / r)\<close>, entered with \<open>t = 1 / r\<close>; for \<open>r = 0\<close> the
  start value \<^verbatim>\<open>1 / 0\<close> is \<^verbatim>\<open>Infinity\<close> and the body never runs.\<close>

function linear_sweep :: "point \<Rightarrow> point \<Rightarrow> nat \<Rightarrow> real \<Rightarrow> point list \<Rightarrow> point list" where
  "linear_sweep p1 p2 r t poly =
     (if 0 < r \<and> t \<le> 1 + 1 / 10 ^ 9
      then linear_sweep p1 p2 r (t + 1 / real r)
             (poly @ [\<lparr> px = px p1 + (px p2 - px p1) * t, py = py p1 + (py p2 - py p1) * t \<rparr>])
      else poly)"
  by pat_completeness auto
termination
proof (relation "measure (\<lambda>(p1, p2, r, t, poly). nat (\<lfloor>(1 + 1 / 10 ^ 9 - t) * real r\<rfloor> + 1))")
  show "wf (measure (\<lambda>(p1 :: point, p2 :: point, r, t, poly :: point list).
              nat (\<lfloor>(1 + 1 / 10 ^ 9 - t) * real r\<rfloor> + 1)))" by simp
next
  fix p1 p2 :: point and r :: nat and t :: real and poly :: "point list"
  assume h: "0 < r \<and> t \<le> 1 + 1 / 10 ^ 9"
  then have a: "(1 + 1 / 10 ^ 9 - (t + 1 / real r)) * real r = (1 + 1 / 10 ^ 9 - t) * real r - 1"
    by (simp add: algebra_simps)
  from h have "0 \<le> (1 + 1 / 10 ^ 9 - t) * real r" by simp
  then have "0 \<le> \<lfloor>(1 + 1 / 10 ^ 9 - t) * real r\<rfloor>" by simp
  then show "((p1, p2, r, t + 1 / real r,
               poly @ [\<lparr> px = px p1 + (px p2 - px p1) * t, py = py p1 + (py p2 - py p1) * t \<rparr>]),
              (p1, p2, r, t, poly))
             \<in> measure (\<lambda>(p1, p2, r, t, poly). nat (\<lfloor>(1 + 1 / 10 ^ 9 - t) * real r\<rfloor> + 1))"
    by (simp only: in_measure prod.case a) simp
qed

function spline_sweep ::
  "point \<Rightarrow> point \<Rightarrow> point \<Rightarrow> point \<Rightarrow> nat \<Rightarrow> real \<Rightarrow> point list \<Rightarrow> point list" where
  "spline_sweep p0 p1 p2 p3 r t poly =
     (if 0 < r \<and> t \<le> 1 + 1 / 10 ^ 9
      then spline_sweep p0 p1 p2 p3 r (t + 1 / real r)
             (poly @ [catmullRomSpline p0 p1 p2 p3 (min t 1)])
      else poly)"
  by pat_completeness auto
termination
proof (relation "measure (\<lambda>(p0, p1, p2, p3, r, t, poly). nat (\<lfloor>(1 + 1 / 10 ^ 9 - t) * real r\<rfloor> + 1))")
  show "wf (measure (\<lambda>(p0 :: point, p1 :: point, p2 :: point, p3 :: point, r, t, poly :: point list).
              nat (\<lfloor>(1 + 1 / 10 ^ 9 - t) * real r\<rfloor> + 1)))" by simp
next
  fix p0 p1 p2 p3 :: point and r :: nat and t :: real and poly :: "point list"
  assume h: "0 < r \<and> t \<le> 1 + 1 / 10 ^ 9"
  then have a: "(1 + 1 / 10 ^ 9 - (t + 1 / real r)) * real r = (1 + 1 / 10 ^ 9 - t) * real r - 1"
    by (simp add: algebra_simps)
  from h have "0 \<le> (1 + 1 / 10 ^ 9 - t) * real r" by simp
  then have "0 \<le> \<lfloor>(1 + 1 / 10 ^ 9 - t) * real r\<rfloor>" by simp
  then show "((p0, p1, p2, p3, r, t + 1 / real r, poly @ [catmullRomSpline p0 p1 p2 p3 (min t 1)]),
              (p0, p1, p2, p3, r, t, poly))
             \<in> measure (\<lambda>(p0, p1, p2, p3, r, t, poly). nat (\<lfloor>(1 + 1 / 10 ^ 9 - t) * real r\<rfloor> + 1))"
    by (simp only: in_measure prod.case a) simp
qed

declare linear_sweep.simps [simp del] spline_sweep.simps [simp del]

text \<open>The body of the loop over \<open>i\<close> for three and more points: the neighbours are clamped
  to the index range (\<^verbatim>\<open>Math.max(0, i - 1)\<close> is the truncated \<open>i - 1\<close>), and the sweep starts at
  \<open>1 / r\<close> for every \<open>i\<close>.\<close>

definition spline_segment :: "point list \<Rightarrow> nat \<Rightarrow> nat \<Rightarrow> point list \<Rightarrow> point list" where
  "spline_segment points r i poly =
     (let p0 = points ! (i - 1);
          p1 = points ! i;
          p2 = points ! (i + 1);
          p3 = points ! (min (length points - 1) (i + 2));
          tStart = 1 / real r
      in spline_sweep p0 p1 p2 p3 r tStart poly)"

text \<open>\<^verbatim>\<open>samplePolylinePoints()\<close>, with the globals \<^verbatim>\<open>points\<close> and \<^verbatim>\<open>curveResolution\<close> as
  arguments.\<close>

definition samplePolylinePoints :: "point list \<Rightarrow> nat \<Rightarrow> point list" where
  "samplePolylinePoints points r =
     (if length points = 0 then []
      else if length points = 1 then [\<lparr> px = px (points ! 0), py = py (points ! 0) \<rparr>]
      else
        (let poly = [\<lparr> px = px (points ! 0), py = py (points ! 0) \<rparr>]
         in if length points = 2
            then linear_sweep (points ! 0) (points ! 1) r (1 / real r) poly
            else fold (spline_segment points r) [0..<length points - 1] poly))"

subsection \<open>Parser\<close>

text \<open>A parsed sample: its coordinates are quotients by the scale factor.\<close>

record sample =
  sx :: jsnum
  sy :: jsnum

text \<open>The cleaned line of \<^verbatim>\<open>parseGCode\<close> and \<^verbatim>\<open>buildPreviewFromGCode\<close>.\<close>

definition clean_line :: "string \<Rightarrow> string" where
  "clean_line raw = trim (strip_parens (strip_semicolon raw))"

text \<open>\<^verbatim>\<open>if (m) last = parseFloat(m[1])\<close>, for the old value of \<^verbatim>\<open>last\<close>.\<close>

definition update_last :: "string option \<Rightarrow> real option \<Rightarrow> real option" where
  "update_last m old = (case m of Some s \<Rightarrow> Some (parseFloat s) | None \<Rightarrow> old)"

text \<open>One iteration of the loop of \<^verbatim>\<open>parseGCode\<close> over the state \<open>(lastX, lastY, out)\<close>;
  \<^verbatim>\<open>continue\<close> leaves the state as it is.\<close>

definition parseGCode_line ::
  "machineSettings \<Rightarrow> real option \<times> real option \<times> sample list \<Rightarrow> string
     \<Rightarrow> real option \<times> real option \<times> sample list" where
  "parseGCode_line cfg st raw =
     (let lastX = fst st; lastY = fst (snd st); out = snd (snd st);
          line = clean_line raw
      in if line = [] then st
         else if \<not> test_G_digits line \<and> \<not> test_letter CHR ''x'' CHR ''X'' line
                 \<and> \<not> test_letter CHR ''y'' CHR ''Y'' line then st
         else
           (let xMatch = match_field CHR ''x'' CHR ''X'' line;
                yMatch = match_field CHR ''y'' CHR ''Y'' line;
                lastX = update_last xMatch lastX;
                lastY = update_last yMatch lastY
            in case (lastX, lastY) of
                 (Some x, Some y) \<Rightarrow>
                   (let sf = or_else (scaleFactor cfg) (Finite 1)
                    in (lastX, lastY,
                        out @ [\<lparr> sx = jdiv (Finite x) sf, sy = jdiv (jneg (Finite y)) sf \<rparr>]))
               | _ \<Rightarrow> (lastX, lastY, out)))"

text \<open>\<^verbatim>\<open>parseGCode(text)\<close>.\<close>

definition parseGCode :: "machineSettings \<Rightarrow> string \<Rightarrow> sample list" where
  "parseGCode cfg text =
     snd (snd (foldl (parseGCode_line cfg) (None, None, []) (split_lines text)))"

subsection \<open>Playback path\<close>

record move =
  mx :: jsnum
  my :: jsnum
  mc :: "real option"

record segment =
  x1 :: jsnum
  y1 :: jsnum
  x2 :: jsnum
  y2 :: jsnum
  len :: jsnum
  cumStart :: jsnum
  cumEnd :: jsnum
  angle :: "real option"
  angleDiff :: real

record preview =
  segments :: "segment list"
  totalLength :: jsnum
  playing :: bool
  speedPxPerSec :: real
  currentDist :: jsnum
  lastTs :: "real option"
  showDirection :: bool
  mode :: string
  gcodeLoaded :: bool

text \<open>One iteration of the first loop of \<^verbatim>\<open>buildPreviewFromGCode\<close> over the state
  \<open>((lastX, lastY, lastC), moves)\<close>. The division by the scale factor is not guarded here.\<close>

definition preview_line ::
  "machineSettings \<Rightarrow> (real option \<times> real option \<times> real option) \<times> move list \<Rightarrow> string
     \<Rightarrow> (real option \<times> real option \<times> real option) \<times> move list" where
  "preview_line cfg st raw =
     (let lastX = fst (fst st); lastY = fst (snd (fst st)); lastC = snd (snd (fst st));
          moves = snd st;
          line = clean_line raw
      in if line = [] then st
         else
           (let isMove = (test_G_space CHR ''0'' line \<or> test_G_space CHR ''1'' line)
            in if \<not> isMove \<and> \<not> test_letter CHR ''x'' CHR ''X'' line
                  \<and> \<not> test_letter CHR ''y'' CHR ''Y'' line then st
               else
                 (let xMatch = match_field CHR ''x'' CHR ''X'' line;
                      yMatch = match_field CHR ''y'' CHR ''Y'' line;
                      cMatch = match_field CHR ''c'' CHR ''C'' line;
                      lastX = update_last xMatch lastX;
                      lastY = update_last yMatch lastY;
                      lastC = update_last cMatch lastC
                  in case (lastX, lastY) of
                       (Some x, Some y) \<Rightarrow>
                         (let canvasX = jdiv (Finite x) (scaleFactor cfg);
                              canvasY = jdiv (jneg (Finite y)) (scaleFactor cfg)
                          in ((lastX, lastY, lastC),
                              moves @ [\<lparr> mx = canvasX, my = canvasY, mc = lastC \<rparr>]))
                     | _ \<Rightarrow> ((lastX, lastY, lastC), moves))))"

definition preview_moves :: "machineSettings \<Rightarrow> string \<Rightarrow> move list" where
  "preview_moves cfg gcodeText =
     snd (foldl (preview_line cfg) ((None, None, None), []) (split_lines gcodeText))"

text \<open>The second loop, \<^verbatim>\<open>for (let i = 1; i < moves.length; i++)\<close>, over the pairs
  \<open>a = moves[i - 1]\<close>, \<open>b = moves[i]\<close>, with the running length \<open>cum\<close> and the segments pushed
  so far. It returns the segments and the final \<open>cum\<close>.\<close>

fun build_segments :: "move list \<Rightarrow> jsnum \<Rightarrow> segment list \<Rightarrow> segment list \<times> jsnum" where
  "build_segments (a # b # ms) cum segs =
     (let dx = jsub (mx b) (mx a);
          dy = jsub (my b) (my a);
          len = jhypot dx dy
      in if jle len (Finite (1 / 10 ^ 6)) then build_segments (b # ms) cum segs
         else
           (let angleDiff = (case (mc a, mc b) of
                               (Some ca, Some cb) \<Rightarrow> getAngleDifference ca cb
                             | _ \<Rightarrow> 0);
                seg = \<lparr> x1 = mx a, y1 = my a, x2 = mx b, y2 = my b, len = len,
                        cumStart = cum, cumEnd = jadd cum len,
                        angle = mc b, angleDiff = angleDiff \<rparr>
            in build_segments (b # ms) (jadd cum len) (segs @ [seg])))"
| "build_segments ms cum segs = (segs, cum)"

text \<open>\<^verbatim>\<open>buildPreviewFromGCode(gcodeText)\<close> as an update of the global \<^verbatim>\<open>preview\<close>.\<close>

definition buildPreviewFromGCode :: "machineSettings \<Rightarrow> string \<Rightarrow> preview \<Rightarrow> preview" where
  "buildPreviewFromGCode cfg gcodeText pv =
     (let moves = preview_moves cfg gcodeText;
          built = build_segments moves (Finite 0) []
      in pv \<lparr> segments := fst built, totalLength := snd built,
              currentDist := Finite 0, gcodeLoaded := True \<rparr>)"

text \<open>The result of \<^verbatim>\<open>distToPoint\<close>.\<close>

record position =
  pos_x :: jsnum
  pos_y :: jsnum
  pos_nx :: jsnum
  pos_ny :: jsnum
  pos_angle :: "real option"
  pos_angleDiff :: real

text \<open>The loop of \<^verbatim>\<open>distToPoint\<close>: the result at the first segment with \<open>d \<le> cumEnd\<close>, or
  \<open>None\<close> when the loop ends without returning.\<close>

fun distToPoint_scan :: "jsnum \<Rightarrow> segment list \<Rightarrow> position option" where
  "distToPoint_scan d [] = None"
| "distToPoint_scan d (seg # segs) =
     (if jle d (cumEnd seg) then
        (let t = (if jlt (Finite 0) (len seg) then jdiv (jsub d (cumStart seg)) (len seg)
                  else Finite 0);
             x = jadd (x1 seg) (jmul (jsub (x2 seg) (x1 seg)) t);
             y = jadd (y1 seg) (jmul (jsub (y2 seg) (y1 seg)) t);
             tx = jsub (x2 seg) (x1 seg);
             ty = jsub (y2 seg) (y1 seg);
             tl = or_else (jhypot tx ty) (Finite 1)
         in Some \<lparr> pos_x = x, pos_y = y, pos_nx = jdiv tx tl, pos_ny = jdiv ty tl,
                   pos_angle = angle seg, pos_angleDiff = angleDiff seg \<rparr>)
      else distToPoint_scan d segs)"

text \<open>\<^verbatim>\<open>distToPoint(d)\<close>; \<open>None\<close> is \<^verbatim>\<open>null\<close>.\<close>

definition distToPoint :: "preview \<Rightarrow> jsnum \<Rightarrow> position option" where
  "distToPoint pv d =
     (if length (segments pv) = 0 then None
      else
        (case distToPoint_scan d (segments pv) of
           Some p \<Rightarrow> Some p
         | None \<Rightarrow>
             (let lastSeg = segments pv ! (length (segments pv) - 1);
                  tx = jsub (x2 lastSeg) (x1 lastSeg);
                  ty = jsub (y2 lastSeg) (y1 lastSeg);
                  tl = or_else (jhypot tx ty) (Finite 1)
              in Some \<lparr> pos_x = x2 lastSeg, pos_y = y2 lastSeg, pos_nx = jdiv tx tl,
                        pos_ny = jdiv ty tl, pos_angle = angle lastSeg,
                        pos_angleDiff = angleDiff lastSeg \<rparr>)))"

text \<open>The initial value of \<^verbatim>\<open>preview\<close> (source lines 29 to 39).\<close>

definition initialPreview :: preview where
  "initialPreview = \<lparr> segments = [], totalLength = Finite 0, playing = False,
     speedPxPerSec = 200, currentDist = Finite 0, lastTs = None, showDirection = True,
     mode = ''base'', gcodeLoaded = False \<rparr>"

subsection \<open>Generators\<close>

text \<open>The header lines that \<^verbatim>\<open>generateGCodeString\<close> pushes before the moves.\<close>

definition base_header :: "host \<Rightarrow> machineSettings \<Rightarrow> string list" where
  "base_header h cfg =
     (let unitCode = (if unit cfg = ''inch'' then ''G20'' else ''G21'')
      in [ ''; TangentCNC G-code'',
           ''; Generated: '' @ nowISO h,
           ''; Units: '' @ unit cfg,
           ''; Scale: '' @ toString h (scaleFactor cfg) @ '' (canvas pixels to '' @ unit cfg @ '')'',
           ''G90    ; Absolute positioning'',
           unitCode @ ''   ; Unit: '' @ unit cfg,
           ''G17    ; XY plane'',
           ''F'' @ formatNum h (Finite (rapidRate cfg)) @ '' ; Rapid feed rate'' ])"

text \<open>The line of the loop \<^verbatim>\<open>for (let i = 1; i < poly.length; i++)\<close> for the sample \<open>p\<close>; the
  canvas \<open>y\<close> is negated before it is scaled.\<close>

definition base_move :: "host \<Rightarrow> machineSettings \<Rightarrow> point \<Rightarrow> string" where
  "base_move h cfg p =
     (let x = jmul (Finite (px p)) (scaleFactor cfg);
          y = jmul (Finite (- py p)) (scaleFactor cfg)
      in ''G1 X'' @ formatNum h x @ '' Y'' @ formatNum h y
         @ '' F'' @ formatNum h (Finite (feedRate cfg)))"

text \<open>\<^verbatim>\<open>generateGCodeString()\<close>, with the host, the settings, the control points and the
  resolution as arguments.\<close>

definition generateGCodeString :: "host \<Rightarrow> machineSettings \<Rightarrow> point list \<Rightarrow> nat \<Rightarrow> string" where
  "generateGCodeString h cfg points r =
     (let poly = samplePolylinePoints points r;
          lines = base_header h cfg;
          lines =
            (if length poly > 0 then
               (let p0 = poly ! 0;
                    x0 = jmul (Finite (px p0)) (scaleFactor cfg);
                    y0 = jmul (Finite (- py p0)) (scaleFactor cfg)
                in lines
                   @ [ ''G0 Z'' @ formatNum h (Finite (safeHeight cfg)) @ '' ; Safe height'',
                       ''G0 X'' @ formatNum h x0 @ '' Y'' @ formatNum h y0,
                       ''G1 Z'' @ formatNum h (Finite (cutDepth cfg)) @ '' F''
                         @ formatNum h (Finite (feedRate cfg)) @ '' ; Plunge to cut depth'' ]
                   @ map (base_move h cfg) (drop 1 poly)
                   @ [ ''G0 Z'' @ formatNum h (Finite (safeHeight cfg)) @ '' ; Retract'' ])
             else lines)
      in join_lines (lines @ [''M2     ; Program end'']))"

text \<open>The loop of \<^verbatim>\<open>generateOrientedGCodeFromPoints\<close> over the samples after the first, with the
  previous sample and the previous emitted heading \<^verbatim>\<open>prevAngle\<close>. Besides the lines it yields
  the headings, in the order of the lines.\<close>

fun oriented_moves ::
  "host \<Rightarrow> machineSettings \<Rightarrow> point \<Rightarrow> real \<Rightarrow> point list \<Rightarrow> (string \<times> real) list" where
  "oriented_moves h cfg prev prevAngle [] = []"
| "oriented_moves h cfg prev prevAngle (p # ps) =
     (let dx = px p - px prev;
          dy = py p - py prev;
          c = angleDeg dx dy;
          normalizedC = normalizeAngle cfg c (Some prevAngle);
          x = jmul (Finite (px p)) (scaleFactor cfg);
          y = jmul (Finite (- py p)) (scaleFactor cfg)
      in (''G1 X'' @ formatNum h x @ '' Y'' @ formatNum h y
            @ '' C'' @ formatNum h (Finite normalizedC)
            @ '' F'' @ formatNum h (Finite (feedRate cfg))
            @ '' ; ORI='' @ formatNum h (Finite normalizedC) @ ''deg'', normalizedC)
         # oriented_moves h cfg p normalizedC ps)"

text \<open>The first heading \<open>c0\<close> of \<^verbatim>\<open>generateOrientedGCodeFromPoints\<close>.\<close>

definition first_heading :: "machineSettings \<Rightarrow> point list \<Rightarrow> real" where
  "first_heading cfg poly =
     (let c0 = (if length poly > 1
                then angleDeg (px (poly ! 1) - px (poly ! 0)) (py (poly ! 1) - py (poly ! 0))
                else 0)
      in normalizeAngle cfg c0 None)"

text \<open>The headings that \<^verbatim>\<open>generateOrientedGCodeFromPoints\<close> writes into the \<open>C\<close> fields, one per
  sample of the polyline.\<close>

definition headings_from_points :: "host \<Rightarrow> machineSettings \<Rightarrow> point list \<Rightarrow> nat \<Rightarrow> real list" where
  "headings_from_points h cfg points r =
     (let poly = samplePolylinePoints points r
      in if length poly > 0
         then first_heading cfg poly
              # map snd (oriented_moves h cfg (poly ! 0) (first_heading cfg poly) (drop 1 poly))
         else [])"

text \<open>\<^verbatim>\<open>generateOrientedGCodeFromPoints()\<close>. The degree sign of the fifth header line is the
  code unit \<open>0xB0\<close>.\<close>

definition generateOrientedGCodeFromPoints ::
  "host \<Rightarrow> machineSettings \<Rightarrow> point list \<Rightarrow> nat \<Rightarrow> string" where
  "generateOrientedGCodeFromPoints h cfg points r =
     (let poly = samplePolylinePoints points r;
          unitCode = (if unit cfg = ''inch'' then ''G20'' else ''G21'');
          lines =
            [ ''; TangentCNC G-code (with orientation)'',
              ''; Generated: '' @ nowISO h,
              ''; Units: '' @ unit cfg,
              ''; Scale: '' @ toString h (scaleFactor cfg) @ '' (canvas pixels to '' @ unit cfg @ '')'',
              ''; Orientation C: heading in degrees (0'' @ [CHR 0xB0] @ '' = +X, CCW+, Y up)'',
              ''; ORI: same heading in comment for controllers without C-axis'',
              ''G90    ; Absolute positioning'',
              unitCode @ ''   ; Unit: '' @ unit cfg,
              ''G17    ; XY plane'',
              ''F'' @ formatNum h (Finite (rapidRate cfg)) @ '' ; Rapid feed rate'' ];
          lines =
            (if length poly > 0 then
               (let p0 = poly ! 0;
                    x0 = jmul (Finite (px p0)) (scaleFactor cfg);
                    y0 = jmul (Finite (- py p0)) (scaleFactor cfg);
                    c0 = first_heading cfg poly
                in lines
                   @ [ ''G0 Z'' @ formatNum h (Finite (safeHeight cfg)) @ '' ; Safe height'',
                       ''G0 X'' @ formatNum h x0 @ '' Y'' @ formatNum h y0
                         @ '' C'' @ formatNum h (Finite c0)
                         @ '' ; ORI='' @ formatNum h (Finite c0) @ ''deg'',
                       ''G1 Z'' @ formatNum h (Finite (cutDepth cfg)) @ '' F''
                         @ formatNum h (Finite (feedRate cfg)) @ '' ; Plunge to cut depth'' ]
                   @ map fst (oriented_moves h cfg p0 c0 (drop 1 poly))
                   @ [ ''G0 Z'' @ formatNum h (Finite (safeHeight cfg)) @ '' ; Retract'' ])
             else lines)
      in join_lines (lines @ [''M2     ; Program end'']))"

text \<open>\<^verbatim>\<open>generateOrientedGCodeFromBase\<close>, first pass: the loop that collects the XY positions,
  over the state \<open>(lastX, lastY, moves)\<close>. Only the semicolon comment is stripped here.\<close>

definition base_pass1_line ::
  "real option \<times> real option \<times> (real \<times> real) list \<Rightarrow> string
     \<Rightarrow> real option \<times> real option \<times> (real \<times> real) list" where
  "base_pass1_line st raw =
     (let lastX = fst st; lastY = fst (snd st); moves = snd (snd st);
          line = trim (strip_semicolon raw)
      in if line = [] then st
         else
           (let xMatch = match_field CHR ''x'' CHR ''X'' line;
                yMatch = match_field CHR ''y'' CHR ''Y'' line;
                lastX = update_last xMatch lastX;
                lastY = update_last yMatch lastY
            in case (lastX, lastY) of
                 (Some x, Some y) \<Rightarrow> (lastX, lastY, moves @ [(x, y)])
               | _ \<Rightarrow> (lastX, lastY, moves)))"

text \<open>\<^verbatim>\<open>raw.match(/;(.*)$/)\<close>: the text after the first semicolon that is followed by no line
  terminator, or the empty string when there is no match.\<close>

fun semicolon_comment :: "string \<Rightarrow> string" where
  "semicolon_comment [] = []"
| "semicolon_comment (c # cs) =
     (if c = CHR '';'' \<and> list_all (\<lambda>d. \<not> isLineTerminator d) cs then cs
      else semicolon_comment cs)"

text \<open>The heading of the move with index \<open>moveIndex\<close> before normalisation: from the previous
  position to the current one, or for the first move from the current position to the
  next; \<open>0\<close> when the two positions are at most \<open>1e-6\<close> apart or there is one move only.
  The differences of G-code coordinates are passed to \<open>angleDeg\<close> as they are.\<close>

definition base_raw_angle :: "(real \<times> real) list \<Rightarrow> nat \<Rightarrow> real" where
  "base_raw_angle moves moveIndex =
     (if moveIndex > 0 then
        (let prev = moves ! (moveIndex - 1);
             curr = moves ! moveIndex;
             dx = fst curr - fst prev;
             dy = snd curr - snd prev
         in if sqrt (dx * dx + dy * dy) > 1 / 10 ^ 6 then angleDeg dx dy else 0)
      else if moveIndex = 0 \<and> length moves > 1 then
        (let curr = moves ! 0;
             next = moves ! 1;
             dx = fst next - fst curr;
             dy = snd next - snd curr
         in if sqrt (dx * dx + dy * dy) > 1 / 10 ^ 6 then angleDeg dx dy else 0)
      else 0)"

text \<open>The state of the second pass.\<close>

record pass2 =
  p2_lastX :: "real option"
  p2_lastY :: "real option"
  p2_moveIndex :: nat
  p2_prevAngle :: "real option"
  p2_outputLines :: "string list"
  p2_headings :: "real list"

text \<open>Second pass, one iteration. The field \<open>p2_headings\<close> is not in the source: it records
  the headings in the order in which they are written into the \<open>C\<close> fields.\<close>

definition base_pass2_line ::
  "host \<Rightarrow> machineSettings \<Rightarrow> (real \<times> real) list \<Rightarrow> pass2 \<Rightarrow> string \<Rightarrow> pass2" where
  "base_pass2_line h cfg moves st raw =
     (let comment = semicolon_comment raw;
          line = trim (strip_semicolon raw)
      in if line = [] then st \<lparr> p2_outputLines := p2_outputLines st @ [raw] \<rparr>
         else if \<not> test_G_space CHR ''0'' line \<and> \<not> test_G_space CHR ''1'' line
                 \<and> \<not> test_letter CHR ''x'' CHR ''X'' line
                 \<and> \<not> test_letter CHR ''y'' CHR ''Y'' line
         then st \<lparr> p2_outputLines := p2_outputLines st @ [raw] \<rparr>
         else
           (let xMatch = match_field CHR ''x'' CHR ''X'' line;
                yMatch = match_field CHR ''y'' CHR ''Y'' line;
                zMatch = match_field CHR ''z'' CHR ''Z'' line;
                fMatch = match_field CHR ''f'' CHR ''F'' line;
                gMatch = match_G01 line;
                lastX = update_last xMatch (p2_lastX st);
                lastY = update_last yMatch (p2_lastY st);
                st = st \<lparr> p2_lastX := lastX, p2_lastY := lastY \<rparr>
            in case (lastX, lastY) of
                 (Some x, Some y) \<Rightarrow>
                   if p2_moveIndex st < length moves then
                     (let angle = base_raw_angle moves (p2_moveIndex st);
                          angle = normalizeAngle cfg angle (p2_prevAngle st);
                          newLine =
                            (case gMatch of Some g \<Rightarrow> ''G'' @ [g] @ '' '' | None \<Rightarrow> [])
                            @ (case xMatch of Some m \<Rightarrow> ''X'' @ formatNum h (Finite x) @ '' ''
                                 | None \<Rightarrow> [])
                            @ (case yMatch of Some m \<Rightarrow> ''Y'' @ formatNum h (Finite y) @ '' ''
                                 | None \<Rightarrow> [])
                            @ (case zMatch of Some m \<Rightarrow> ''Z'' @ m @ '' '' | None \<Rightarrow> [])
                            @ ''C'' @ formatNum h (Finite angle) @ '' ''
                            @ (case fMatch of Some m \<Rightarrow> ''F'' @ m @ '' '' | None \<Rightarrow> []);
                          newLine = trim newLine;
                          newLine = newLine @ '' ; ORI='' @ formatNum h (Finite angle) @ ''deg'';
                          newLine = (if comment \<noteq> [] then newLine @ '' '' @ comment else newLine)
                      in st \<lparr> p2_prevAngle := Some angle,
                              p2_outputLines := p2_outputLines st @ [newLine],
                              p2_moveIndex := p2_moveIndex st + 1,
                              p2_headings := p2_headings st @ [angle] \<rparr>)
                   else st \<lparr> p2_outputLines := p2_outputLines st @ [raw] \<rparr>
               | _ \<Rightarrow> st \<lparr> p2_outputLines := p2_outputLines st @ [raw] \<rparr>))"

text \<open>The final state of the second pass of \<^verbatim>\<open>generateOrientedGCodeFromBase(baseGcode)\<close>.\<close>

definition base_pass2 :: "host \<Rightarrow> machineSettings \<Rightarrow> string \<Rightarrow> pass2" where
  "base_pass2 h cfg baseGcode =
     (let lines = split_lines baseGcode;
          moves = snd (snd (foldl base_pass1_line (None, None, []) lines))
      in foldl (base_pass2_line h cfg moves)
           \<lparr> p2_lastX = None, p2_lastY = None, p2_moveIndex = 0, p2_prevAngle = None,
             p2_outputLines = [], p2_headings = [] \<rparr> lines)"

text \<open>\<^verbatim>\<open>generateOrientedGCodeFromBase(baseGcode)\<close>.\<close>

definition generateOrientedGCodeFromBase :: "host \<Rightarrow> machineSettings \<Rightarrow> string \<Rightarrow> string" where
  "generateOrientedGCodeFromBase h cfg baseGcode =
     join_lines (p2_outputLines (base_pass2 h cfg baseGcode))"

text \<open>The headings that \<^verbatim>\<open>generateOrientedGCodeFromBase\<close> writes into the \<open>C\<close> fields.\<close>

definition headings_from_base :: "host \<Rightarrow> machineSettings \<Rightarrow> string \<Rightarrow> real list" where
  "headings_from_base h cfg baseGcode = p2_headings (base_pass2 h cfg baseGcode)"

text \<open>A host for the examples: a clock reading, and a number conversion that is right for
  the default scale factor.\<close>

definition exampleHost :: host where
  "exampleHost = \<lparr> nowISO = ''2024-01-01T00:00:00.000Z'',
     numberToString = (\<lambda>x. if x = 1 / 10 then ''0.1'' else ''1'') \<rparr>"

subsection \<open>The modal semantics in the words of the specification\<close>

text \<open>The lines that contribute to geometry: cleaned, not blank, and looking like a motion
  line. \<^verbatim>\<open>parseGCode\<close> accepts any \<open>G\<close> word, \<^verbatim>\<open>buildPreviewFromGCode\<close> the words \<open>G0\<close> and \<open>G1\<close>
  followed by white space; both accept a line with an \<open>X\<close> or a \<open>Y\<close>.\<close>

definition spec_parse_motion :: "string \<Rightarrow> bool" where
  "spec_parse_motion line =
     (line \<noteq> [] \<and> (test_G_digits line \<or> test_letter CHR ''x'' CHR ''X'' line
                      \<or> test_letter CHR ''y'' CHR ''Y'' line))"

definition spec_preview_motion :: "string \<Rightarrow> bool" where
  "spec_preview_motion line =
     (line \<noteq> [] \<and> (test_G_space CHR ''0'' line \<or> test_G_space CHR ''1'' line
                      \<or> test_letter CHR ''x'' CHR ''X'' line
                      \<or> test_letter CHR ''y'' CHR ''Y'' line))"

text \<open>The running value of a field after the lines \<open>ls\<close>: the number of the last line that
  carries the field, \<open>None\<close> when no line does.\<close>

definition spec_last_seen :: "char \<Rightarrow> char \<Rightarrow> string list \<Rightarrow> real option" where
  "spec_last_seen l u ls =
     (if List.map_filter (match_field l u) ls = [] then None
      else Some (parseFloat (last (List.map_filter (match_field l u) ls))))"

text \<open>Modal extraction: the \<open>n\<close>-th motion line emits a sample when, among the first \<open>n\<close>
  motion lines, some line carries \<open>X\<close> and some line carries \<open>Y\<close>; the sample is made of the
  running values of \<open>X\<close>, \<open>Y\<close> and \<open>C\<close> at that line.\<close>

definition spec_modal :: "(real \<Rightarrow> real \<Rightarrow> real option \<Rightarrow> 'a) \<Rightarrow> string list \<Rightarrow> 'a list" where
  "spec_modal emit ls =
     concat (map (\<lambda>n. case (spec_last_seen CHR ''x'' CHR ''X'' (take n ls),
                                spec_last_seen CHR ''y'' CHR ''Y'' (take n ls)) of
                          (Some x, Some y) \<Rightarrow>
                            [emit x y (spec_last_seen CHR ''c'' CHR ''C'' (take n ls))]
                        | _ \<Rightarrow> [])
                  [1..<Suc (length ls)])"

text \<open>The sample and the move that the two parsers make of the running values.\<close>

definition parse_emit :: "machineSettings \<Rightarrow> real \<Rightarrow> real \<Rightarrow> real option \<Rightarrow> sample" where
  "parse_emit cfg x y c =
     \<lparr> sx = jdiv (Finite x) (or_else (scaleFactor cfg) (Finite 1)),
       sy = jdiv (jneg (Finite y)) (or_else (scaleFactor cfg) (Finite 1)) \<rparr>"

definition preview_emit :: "machineSettings \<Rightarrow> real \<Rightarrow> real \<Rightarrow> real option \<Rightarrow> move" where
  "preview_emit cfg x y c =
     \<lparr> mx = jdiv (Finite x) (scaleFactor cfg), my = jdiv (jneg (Finite y)) (scaleFactor cfg),
       mc = c \<rparr>"

subsection \<open>Chained segments\<close>

text \<open>A list of segments is chained from \<open>c\<close> to \<open>c'\<close> when its coordinates are finite, every
  length is a finite number above \<open>1e-6\<close>, the first segment starts at \<open>c\<close>, every segment ends
  at its start plus its length, where the next one starts, and the last one ends at \<open>c'\<close>.\<close>

fun seg_chain :: "real \<Rightarrow> segment list \<Rightarrow> real \<Rightarrow> bool" where
  "seg_chain c [] c' = (c = c')"
| "seg_chain c (s # ss) c' =
     (isFinite (x1 s) \<and> isFinite (y1 s) \<and> isFinite (x2 s) \<and> isFinite (y2 s)
      \<and> cumStart s = Finite c
      \<and> (case len s of
            Finite l \<Rightarrow> 1 / 10 ^ 6 < l \<and> cumEnd s = Finite (c + l) \<and> seg_chain (c + l) ss c'
          | _ \<Rightarrow> False))"

definition move_finite :: "move \<Rightarrow> bool" where
  "move_finite m = (isFinite (mx m) \<and> isFinite (my m))"

subsection \<open>Lines without terminators\<close>

text \<open>A string without line terminators.\<close>

definition lt_free :: "string \<Rightarrow> bool" where
  "lt_free s = list_all (\<lambda>c. \<not> isLineTerminator c) s"
subsection \<open>The sampler in binary64 arithmetic\<close>

text \<open>Whether the sampled polyline ends exactly on the last control point depends on the
  rounding of the loop variable, which exact real arithmetic hides. The sampler is therefore
  embedded a second time with every arithmetic operation rounded as IEEE 754 binary64 does
  it, to the nearest double with ties to the even significand. A finite double is represented
  by the real number that it denotes. Overflow and subnormal numbers are not modelled: \<open>fl\<close>
  is the rounding of IEEE 754 for \<open>2 ^ (-1022) \<le> \<bar>x\<bar> < 2 ^ 1024\<close>, the range of all values of the
  examples below.\<close>

text \<open>The binary exponent \<open>\<lfloor>log 2 x\<rfloor>\<close> of a positive number, by halving a number of at least \<open>2\<close>
  and doubling a number below \<open>1\<close>.\<close>

function log2_up :: "real \<Rightarrow> int \<Rightarrow> int" where
  "log2_up x e = (if 2 \<le> x then log2_up (x / 2) (e + 1) else e)"
  by pat_completeness auto
termination
proof (relation "measure (\<lambda>(x, e). nat \<lfloor>x\<rfloor>)")
  show "wf (measure (\<lambda>(x :: real, e :: int). nat \<lfloor>x\<rfloor>))" by simp
next
  fix x :: real and e :: int
  assume h: "2 \<le> x"
  have "\<lfloor>x / 2\<rfloor> \<le> \<lfloor>x - 1\<rfloor>" using h by (intro floor_mono) simp
  then have "\<lfloor>x / 2\<rfloor> < \<lfloor>x\<rfloor>" by simp
  moreover have "0 < \<lfloor>x\<rfloor>" using h by simp
  ultimately show "((x / 2, e + 1), (x, e)) \<in> measure (\<lambda>(x, e). nat \<lfloor>x\<rfloor>)" by simp
qed

function log2_down :: "real \<Rightarrow> int \<Rightarrow> int" where
  "log2_down x e = (if 0 < x \<and> x < 1 then log2_down (x * 2) (e - 1) else e)"
  by pat_completeness auto
termination
proof (relation "measure (\<lambda>(x, e). nat \<lceil>1 / x\<rceil>)")
  show "wf (measure (\<lambda>(x :: real, e :: int). nat \<lceil>1 / x\<rceil>))" by simp
next
  fix x :: real and e :: int
  assume h: "0 < x \<and> x < 1"
  then have a: "1 < 1 / x" by simp
  define c where "c = \<lceil>1 / x\<rceil>"
  have c2: "2 \<le> c" using a unfolding c_def by (simp add: less_ceiling_iff)
  then have c2r: "(2 :: real) \<le> of_int c" by linarith
  have "1 / x \<le> of_int c" unfolding c_def by (rule le_of_int_ceiling)
  then have "1 / (x * 2) \<le> of_int c / 2" by simp
  also have "\<dots> \<le> of_int (c - 1)" using c2r by simp
  finally have "\<lceil>1 / (x * 2)\<rceil> \<le> c - 1" by (rule ceiling_le)
  then show "((x * 2, e - 1), (x, e)) \<in> measure (\<lambda>(x, e). nat \<lceil>1 / x\<rceil>)"
    using c2 h unfolding c_def by simp
qed

declare log2_up.simps [simp del] log2_down.simps [simp del]

text \<open>The exponent of the binade of \<open>x \<noteq> 0\<close>: \<open>2 ^ exponent x \<le> \<bar>x\<bar> < 2 ^ (exponent x + 1)\<close>.\<close>

definition exponent :: "real \<Rightarrow> int" where
  "exponent x = (if 1 \<le> \<bar>x\<bar> then log2_up \<bar>x\<bar> 0 else log2_down \<bar>x\<bar> 0)"

definition pow2 :: "int \<Rightarrow> real" where
  "pow2 e = (if 0 \<le> e then 2 ^ nat e else 1 / 2 ^ nat (- e))"

text \<open>Rounding to the nearest integer, a tie to the even one.\<close>

definition round_even :: "real \<Rightarrow> int" where
  "round_even y =
     (let f = \<lfloor>y\<rfloor>; d = y - of_int f
      in if d < 1 / 2 then f else if 1 / 2 < d then f + 1 else if even f then f else f + 1)"

text \<open>The double nearest to \<open>x\<close>: the significand \<open>x / 2 ^ (e - 52)\<close>, which lies in
  \<open>[2 ^ 52, 2 ^ 53)\<close>, is rounded to an integer.\<close>

definition fl :: "real \<Rightarrow> real" where
  "fl x = (if x = 0 then 0
           else (let q = pow2 (exponent x - 52) in of_int (round_even (x / q)) * q))"


text \<open>\<^verbatim>\<open>catmullRomSpline(p0, p1, p2, p3, t)\<close> in binary64: every product, sum and difference of
  the source is rounded, in the order in which JavaScript evaluates them (\<open>+\<close> and \<open>-\<close>
  associate to the left); the unary minus and \<^verbatim>\<open>Math.min\<close> are exact.\<close>

definition catmullRomSpline_fl :: "point \<Rightarrow> point \<Rightarrow> point \<Rightarrow> point \<Rightarrow> real \<Rightarrow> point" where
  "catmullRomSpline_fl p0 p1 p2 p3 t =
     (let t2 = fl (t * t);
          t3 = fl (t2 * t);
          x = fl (0.5 * fl (fl (fl (fl (2 * px p1) + fl (fl (- px p0 + px p2) * t))
                + fl (fl (fl (fl (fl (2 * px p0) - fl (5 * px p1)) + fl (4 * px p2)) - px p3) * t2))
                + fl (fl (fl (fl (- px p0 + fl (3 * px p1)) - fl (3 * px p2)) + px p3) * t3)));
          y = fl (0.5 * fl (fl (fl (fl (2 * py p1) + fl (fl (- py p0 + py p2) * t))
                + fl (fl (fl (fl (fl (2 * py p0) - fl (5 * py p1)) + fl (4 * py p2)) - py p3) * t2))
                + fl (fl (fl (fl (- py p0 + fl (3 * py p1)) - fl (3 * py p2)) + py p3) * t3)))
      in \<lparr> px = x, py = y \<rparr>)"

text \<open>The two loops \<^verbatim>\<open>for (let t = 1 / r; t <= 1 + 1e-9; t += 1 / r)\<close> in binary64. The literal
  \<^verbatim>\<open>1e-9\<close> is the double nearest to \<open>10 ^ (-9)\<close>, and \<^verbatim>\<open>1 / r\<close> is rounded again in every
  iteration. When \<open>1 / r\<close> is too small to move \<open>t\<close> the loop of the source does not end; the
  result is then \<open>None\<close>.\<close>

partial_function (option) linear_sweep_fl ::
  "point \<Rightarrow> point \<Rightarrow> nat \<Rightarrow> real \<Rightarrow> point list \<Rightarrow> point list option" where
  "linear_sweep_fl p1 p2 r t poly =
     (if 0 < r \<and> t \<le> fl (1 + fl (1 / 10 ^ 9))
      then linear_sweep_fl p1 p2 r (fl (t + fl (1 / real r)))
             (poly @ [\<lparr> px = fl (px p1 + fl (fl (px p2 - px p1) * t)),
                        py = fl (py p1 + fl (fl (py p2 - py p1) * t)) \<rparr>])
      else Some poly)"

partial_function (option) spline_sweep_fl ::
  "point \<Rightarrow> point \<Rightarrow> point \<Rightarrow> point \<Rightarrow> nat \<Rightarrow> real \<Rightarrow> point list \<Rightarrow> point list option" where
  "spline_sweep_fl p0 p1 p2 p3 r t poly =
     (if 0 < r \<and> t \<le> fl (1 + fl (1 / 10 ^ 9))
      then spline_sweep_fl p0 p1 p2 p3 r (fl (t + fl (1 / real r)))
             (poly @ [catmullRomSpline_fl p0 p1 p2 p3 (min t 1)])
      else Some poly)"

text \<open>The body of the loop over \<open>i\<close>, and the loop itself over the indices \<open>is\<close>.\<close>

definition spline_segment_fl :: "point list \<Rightarrow> nat \<Rightarrow> nat \<Rightarrow> point list \<Rightarrow> point list option" where
  "spline_segment_fl points r i poly =
     (let p0 = points ! (i - 1);
          p1 = points ! i;
          p2 = points ! (i + 1);
          p3 = points ! (min (length points - 1) (i + 2));
          tStart = fl (1 / real r)
      in spline_sweep_fl p0 p1 p2 p3 r tStart poly)"

fun spline_segments_fl :: "point list \<Rightarrow> nat \<Rightarrow> nat list \<Rightarrow> point list \<Rightarrow> point list option" where
  "spline_segments_fl points r [] poly = Some poly"
| "spline_segments_fl points r (i # is) poly =
     (case spline_segment_fl points r i poly of
        None \<Rightarrow> None
      | Some poly' \<Rightarrow> spline_segments_fl points r is poly')"

text \<open>\<^verbatim>\<open>samplePolylinePoints()\<close> in binary64.\<close>

definition samplePolylinePoints_fl :: "point list \<Rightarrow> nat \<Rightarrow> point list option" where
  "samplePolylinePoints_fl points r =
     (if length points = 0 then Some []
      else if length points = 1 then Some [\<lparr> px = px (points ! 0), py = py (points ! 0) \<rparr>]
      else
        (let poly = [\<lparr> px = px (points ! 0), py = py (points ! 0) \<rparr>]
         in if length points = 2
            then linear_sweep_fl (points ! 0) (points ! 1) r (fl (1 / real r)) poly
            else spline_segments_fl points r [0..<length points - 1] poly))"

subsection \<open>Heading normalisation in binary64 arithmetic\<close>

text \<open>The two loops \<^verbatim>\<open>while (v > 180) v -= 360;\<close> and \<^verbatim>\<open>while (v <= -180) v += 360;\<close> with the
  difference and the sum rounded. A loop of the source that does not end has the result
  \<open>None\<close>: once \<open>v - 360\<close> rounds back to \<open>v\<close> the first loop makes no progress.\<close>

partial_function (option) while_gt_180_fl :: "real \<Rightarrow> real option" where
  "while_gt_180_fl v = (if v > 180 then while_gt_180_fl (fl (v - 360)) else Some v)"

partial_function (option) while_le_m180_fl :: "real \<Rightarrow> real option" where
  "while_le_m180_fl v = (if v \<le> - 180 then while_le_m180_fl (fl (v + 360)) else Some v)"

text \<open>\<^verbatim>\<open>normalizeAngle(angle, prevAngle = null)\<close> in binary64. The remainder \<^verbatim>\<open>%\<close> of two doubles is
  a double, so \<open>jsmod\<close> is not rounded; the sums and differences are. The overflow of
  \<^verbatim>\<open>angle + angleOffset\<close> is not modelled.\<close>

definition normalizeAngle_fl :: "machineSettings \<Rightarrow> real \<Rightarrow> real option \<Rightarrow> real option" where
  "normalizeAngle_fl cfg a prevAngle =
     (let normalized = fl (a + angleOffset cfg);
          folded =
            (if angleMode cfg = ''-180-180''
             then Option.bind (while_gt_180_fl normalized) while_le_m180_fl
             else Some (jsmod (fl (jsmod normalized 360 + 360)) 360))
      in case folded of
           None \<Rightarrow> None
         | Some normalized \<Rightarrow>
             (case prevAngle of
                None \<Rightarrow> Some normalized
              | Some prev \<Rightarrow>
                  if shortestPath cfg then
                    (let diff = fl (normalized - prev)
                     in if diff > 180 then Some (fl (normalized - 360))
                        else if diff < - 180 then Some (fl (normalized + 360))
                        else Some normalized)
                  else Some normalized))"

text \<open>\<^verbatim>\<open>getAngleDifference(angle1, angle2)\<close> in binary64.\<close>

definition getAngleDifference_fl :: "real \<Rightarrow> real \<Rightarrow> real option" where
  "getAngleDifference_fl angle1 angle2 =
     (let diff = fl (angle2 - angle1)
      in map_option abs (Option.bind (while_gt_180_fl diff) while_le_m180_fl))"

subsection \<open>The playback path in binary64 arithmetic\<close>

text \<open>Rounding of a number that may be non-finite.\<close>

fun jfl :: "jsnum \<Rightarrow> jsnum" where
  "jfl (Finite a) = Finite (fl a)"
| "jfl a = a"

text \<open>\<^verbatim>\<open>if (m) last = parseFloat(m[1])\<close>: \<^verbatim>\<open>parseFloat\<close> returns the double nearest to the
  decimal number.\<close>

definition update_last_fl :: "string option \<Rightarrow> real option \<Rightarrow> real option" where
  "update_last_fl m old = (case m of Some s \<Rightarrow> Some (fl (parseFloat s)) | None \<Rightarrow> old)"

text \<open>The first loop of \<^verbatim>\<open>buildPreviewFromGCode\<close> with the two quotients rounded.\<close>

definition preview_line_fl ::
  "machineSettings \<Rightarrow> (real option \<times> real option \<times> real option) \<times> move list \<Rightarrow> string
     \<Rightarrow> (real option \<times> real option \<times> real option) \<times> move list" where
  "preview_line_fl cfg st raw =
     (let lastX = fst (fst st); lastY = fst (snd (fst st)); lastC = snd (snd (fst st));
          moves = snd st;
          line = clean_line raw
      in if line = [] then st
         else
           (let isMove = (test_G_space CHR ''0'' line \<or> test_G_space CHR ''1'' line)
            in if \<not> isMove \<and> \<not> test_letter CHR ''x'' CHR ''X'' line
                  \<and> \<not> test_letter CHR ''y'' CHR ''Y'' line then st
               else
                 (let xMatch = match_field CHR ''x'' CHR ''X'' line;
                      yMatch = match_field CHR ''y'' CHR ''Y'' line;
                      cMatch = match_field CHR ''c'' CHR ''C'' line;
                      lastX = update_last_fl xMatch lastX;
                      lastY = update_last_fl yMatch lastY;
                      lastC = update_last_fl cMatch lastC
                  in case (lastX, lastY) of
                       (Some x, Some y) \<Rightarrow>
                         (let canvasX = jfl (jdiv (Finite x) (scaleFactor cfg));
                              canvasY = jfl (jdiv (jneg (Finite y)) (scaleFactor cfg))
                          in ((lastX, lastY, lastC),
                              moves @ [\<lparr> mx = canvasX, my = canvasY, mc = lastC \<rparr>]))
                     | _ \<Rightarrow> ((lastX, lastY, lastC), moves))))"

definition preview_moves_fl :: "machineSettings \<Rightarrow> string \<Rightarrow> move list" where
  "preview_moves_fl cfg gcodeText =
     snd (foldl (preview_line_fl cfg) ((None, None, None), []) (split_lines gcodeText))"

text \<open>The second loop. The differences, the length and the running sum are rounded;
  \<^verbatim>\<open>Math.hypot\<close> is taken as correctly rounded, and it is exact when one argument is zero.
  The result is \<open>None\<close> when a call of \<^verbatim>\<open>getAngleDifference\<close> does not return.\<close>

fun build_segments_fl ::
  "move list \<Rightarrow> jsnum \<Rightarrow> segment list \<Rightarrow> (segment list \<times> jsnum) option" where
  "build_segments_fl (a # b # ms) cum segs =
     (let dx = jfl (jsub (mx b) (mx a));
          dy = jfl (jsub (my b) (my a));
          len = jfl (jhypot dx dy)
      in if jle len (Finite (fl (1 / 10 ^ 6))) then build_segments_fl (b # ms) cum segs
         else
           (case (case (mc a, mc b) of
                    (Some ca, Some cb) \<Rightarrow> getAngleDifference_fl ca cb
                  | _ \<Rightarrow> Some 0) of
              None \<Rightarrow> None
            | Some diff \<Rightarrow>
                (let seg = \<lparr> x1 = mx a, y1 = my a, x2 = mx b, y2 = my b, len = len,
                             cumStart = cum, cumEnd = jfl (jadd cum len),
                             angle = mc b, angleDiff = diff \<rparr>
                 in build_segments_fl (b # ms) (jfl (jadd cum len)) (segs @ [seg]))))"
| "build_segments_fl ms cum segs = Some (segs, cum)"

text \<open>\<^verbatim>\<open>buildPreviewFromGCode(gcodeText)\<close> in binary64.\<close>

definition buildPreviewFromGCode_fl :: "machineSettings \<Rightarrow> string \<Rightarrow> preview \<Rightarrow> preview option" where
  "buildPreviewFromGCode_fl cfg gcodeText pv =
     (let moves = preview_moves_fl cfg gcodeText
      in case build_segments_fl moves (Finite 0) [] of
           None \<Rightarrow> None
         | Some built \<Rightarrow>
             Some (pv \<lparr> segments := fst built, totalLength := snd built,
                        currentDist := Finite 0, gcodeLoaded := True \<rparr>))"

text \<open>The loop of \<^verbatim>\<open>distToPoint\<close> and the function itself, every operation rounded.\<close>

fun distToPoint_scan_fl :: "jsnum \<Rightarrow> segment list \<Rightarrow> position option" where
  "distToPoint_scan_fl d [] = None"
| "distToPoint_scan_fl d (seg # segs) =
     (if jle d (cumEnd seg) then
        (let t = (if jlt (Finite 0) (len seg) then jfl (jdiv (jfl (jsub d (cumStart seg))) (len seg))
                  else Finite 0);
             x = jfl (jadd (x1 seg) (jfl (jmul (jfl (jsub (x2 seg) (x1 seg))) t)));
             y = jfl (jadd (y1 seg) (jfl (jmul (jfl (jsub (y2 seg) (y1 seg))) t)));
             tx = jfl (jsub (x2 seg) (x1 seg));
             ty = jfl (jsub (y2 seg) (y1 seg));
             tl = or_else (jfl (jhypot tx ty)) (Finite 1)
         in Some \<lparr> pos_x = x, pos_y = y, pos_nx = jfl (jdiv tx tl), pos_ny = jfl (jdiv ty tl),
                   pos_angle = angle seg, pos_angleDiff = angleDiff seg \<rparr>)
      else distToPoint_scan_fl d segs)"

definition distToPoint_fl :: "preview \<Rightarrow> jsnum \<Rightarrow> position option" where
  "distToPoint_fl pv d =
     (if length (segments pv) = 0 then None
      else
        (case distToPoint_scan_fl d (segments pv) of
           Some p \<Rightarrow> Some p
         | None \<Rightarrow>
             (let lastSeg = segments pv ! (length (segments pv) - 1);
                  tx = jfl (jsub (x2 lastSeg) (x1 lastSeg));
                  ty = jfl (jsub (y2 lastSeg) (y1 lastSeg));
                  tl = or_else (jfl (jhypot tx ty)) (Finite 1)
              in Some \<lparr> pos_x = x2 lastSeg, pos_y = y2 lastSeg, pos_nx = jfl (jdiv tx tl),
                        pos_ny = jfl (jdiv ty tl), pos_angle = angle lastSeg,
                        pos_angleDiff = angleDiff lastSeg \<rparr>)))"

text \<open>The initial settings with the literal \<^verbatim>\<open>0.1\<close> of the scale factor as the double that it
  denotes.\<close>

definition binary64Settings :: machineSettings where
  "binary64Settings = defaultSettings \<lparr> scaleFactor := Finite (fl (1 / 10)) \<rparr>"

subsection \<open>The parser of the second copy\<close>

text \<open>The second copy of the program (source lines 1323 onwards) declares \<^verbatim>\<open>parseGCode\<close> again
  (lines 2481 to 2502). Its loop differs from the first in the sample that it pushes:
  \<^verbatim>\<open>out.push({ x: lastX, y: lastY })\<close>, without the division by the scale factor and without
  the change of sign. The fields are the doubles that \<^verbatim>\<open>parseFloat\<close> returns.\<close>

definition parseGCode2_line ::
  "real option \<times> real option \<times> sample list \<Rightarrow> string
     \<Rightarrow> real option \<times> real option \<times> sample list" where
  "parseGCode2_line st raw =
     (let lastX = fst st; lastY = fst (snd st); out = snd (snd st);
          line = clean_line raw
      in if line = [] then st
         else if \<not> test_G_digits line \<and> \<not> test_letter CHR ''x'' CHR ''X'' line
                 \<and> \<not> test_letter CHR ''y'' CHR ''Y'' line then st
         else
           (let xMatch = match_field CHR ''x'' CHR ''X'' line;
                yMatch = match_field CHR ''y'' CHR ''Y'' line;
                lastX = update_last_fl xMatch lastX;
                lastY = update_last_fl yMatch lastY
            in case (lastX, lastY) of
                 (Some x, Some y) \<Rightarrow> (lastX, lastY, out @ [\<lparr> sx = Finite x, sy = Finite y \<rparr>])
               | _ \<Rightarrow> (lastX, lastY, out)))"

text \<open>\<^verbatim>\<open>parseGCode(text)\<close> of the second copy.\<close>

definition parseGCode2 :: "string \<Rightarrow> sample list" where
  "parseGCode2 text = snd (snd (foldl parseGCode2_line (None, None, []) (split_lines text)))"

subsection \<open>A worked example\<close>

text \<open>The lines of the positional program of the vertical stroke from \<open>(0, 0)\<close> to \<open>(0, 100)\<close>
  at resolution \<open>2\<close> under the default settings, and the positions that the first pass of
  \<^verbatim>\<open>generateOrientedGCodeFromBase\<close> collects from them.\<close>

definition example_base_lines :: "string list" where
  "example_base_lines =
     [''; TangentCNC G-code'', ''; Generated: 2024-01-01T00:00:00.000Z'',
      ''; Units: mm'', ''; Scale: 0.1 (canvas pixels to mm)'',
      ''G90    ; Absolute positioning'', ''G21   ; Unit: mm'',
      ''G17    ; XY plane'', ''F1000.000 ; Rapid feed rate'',
      ''G0 Z5.000 ; Safe height'', ''G0 X0.000 Y0.000'',
      ''G1 Z-1.000 F300.000 ; Plunge to cut depth'',
      ''G1 X0.000 Y-5.000 F300.000'', ''G1 X0.000 Y-10.000 F300.000'', ''G0 Z5.000 ; Retract'',
      ''M2     ; Program end'']"

definition example_moves :: "(real \<times> real) list" where
  "example_moves = [(0, 0), (0, 0), (0, - 5), (0, - 10), (0, - 10), (0, - 10)]"

text \<open>The playback path built in binary64 from the two lines \<^verbatim>\<open>G1 X1 Y0\<close> and \<^verbatim>\<open>G1 X0.3 Y0\<close>
  with the scale factor \<open>0.1\<close>: one segment from \<open>x = 10\<close> to \<open>x = 3 - 2 ^ (-51)\<close>, the double
  \<open>2.9999999999999996\<close> that the division of \<open>0.3\<close> by \<open>0.1\<close> gives.\<close>

definition example_path :: preview where
  "example_path = initialPreview \<lparr> segments :=
       [\<lparr> x1 = Finite 10, y1 = Finite 0, x2 = Finite (3 - 1 / 2 ^ 51), y2 = Finite 0,
          len = Finite 7, cumStart = Finite 0, cumEnd = Finite 7, angle = None, angleDiff = 0 \<rparr>],
     totalLength := Finite 7, currentDist := Finite 0, gcodeLoaded := True \<rparr>"


section \<open>The fold into \<open>(-180, 180]\<close> in exact arithmetic\<close>

text \<open>A value in \<open>(-180, 180]\<close> passes both loops unchanged; the evaluation of the oriented
  generators uses this.\<close>

lemma while_gt_180_props:
  "while_gt_180 v \<le> max v 180 \<and> (v \<le> 180 \<longrightarrow> while_gt_180 v = v) \<and> while_gt_180 v \<le> (if v \<le> 180 then v else 180)
   \<and> (- 180 < v \<longrightarrow> - 180 < while_gt_180 v) \<and> (\<exists>k::int. while_gt_180 v = v + 360 * of_int k)"
proof (induction v rule: while_gt_180.induct)
  case (1 v)
  show ?case
  proof (cases "v > 180")
    case True
    from "1.IH"[OF True] obtain k :: int where
      a: "while_gt_180 (v - 360) \<le> (if v - 360 \<le> 180 then v - 360 else 180)"
      and b: "- 180 < v - 360 \<longrightarrow> - 180 < while_gt_180 (v - 360)"
      and c: "while_gt_180 (v - 360) = v - 360 + 360 * of_int k" by blast
    have e: "while_gt_180 v = while_gt_180 (v - 360)" using True by (subst while_gt_180.simps) simp
    have "while_gt_180 v = v + 360 * of_int (k - 1)" using c e by simp
    then have "\<exists>k::int. while_gt_180 v = v + 360 * of_int k" by blast
    moreover have "while_gt_180 v \<le> 180" using a e by (auto split: if_splits)
    moreover have "- 180 < while_gt_180 v" using b e True by simp
    ultimately show ?thesis using True by auto
  next
    case False
    then have e: "while_gt_180 v = v" by (subst while_gt_180.simps) simp
    have "while_gt_180 v = v + 360 * of_int 0" using e by simp
    then have "\<exists>k::int. while_gt_180 v = v + 360 * of_int k" by blast
    then show ?thesis using False e by auto
  qed
qed

lemma while_le_m180_props:
  "- 180 < while_le_m180 v \<and> (- 180 < v \<longrightarrow> while_le_m180 v = v)
   \<and> (v \<le> 180 \<longrightarrow> while_le_m180 v \<le> 180) \<and> (\<exists>k::int. while_le_m180 v = v + 360 * of_int k)"
proof (induction v rule: while_le_m180.induct)
  case (1 v)
  show ?case
  proof (cases "v \<le> - 180")
    case True
    from "1.IH"[OF True] obtain k :: int where
      a: "- 180 < while_le_m180 (v + 360)"
      and b: "v + 360 \<le> 180 \<longrightarrow> while_le_m180 (v + 360) \<le> 180"
      and c: "while_le_m180 (v + 360) = v + 360 + 360 * of_int k" by blast
    have e: "while_le_m180 v = while_le_m180 (v + 360)" using True by (subst while_le_m180.simps) simp
    have "while_le_m180 v = v + 360 * of_int (k + 1)" using c e by simp
    then have "\<exists>k::int. while_le_m180 v = v + 360 * of_int k" by blast
    moreover have "while_le_m180 v \<le> 180" using b e True by simp
    ultimately show ?thesis using True a e by auto
  next
    case False
    then have e: "while_le_m180 v = v" by (subst while_le_m180.simps) simp
    have "while_le_m180 v = v + 360 * of_int 0" using e by simp
    then have "\<exists>k::int. while_le_m180 v = v + 360 * of_int k" by blast
    then show ?thesis using False e by auto
  qed
qed

lemma fold180_id: "- 180 < v \<Longrightarrow> v \<le> 180 \<Longrightarrow> while_le_m180 (while_gt_180 v) = v"
  using while_gt_180_props[of v] while_le_m180_props[of v] by simp
section \<open>Binary64 rounding: proofs\<close>

lemmas fl_eval = fl_def exponent_def pow2_def round_even_def Let_def log2_up.simps log2_down.simps

subsection \<open>Powers of two and the exponent\<close>

lemma pow2_powi: "pow2 e = 2 powi e"
  by (simp add: pow2_def power_int_def inverse_eq_divide power_one_over)

lemma pow2_pos: "0 < pow2 e"
  by (simp add: pow2_powi)

lemma pow2_add: "pow2 (a + b) = pow2 a * pow2 b"
  by (simp add: pow2_powi power_int_add)

lemma pow2_one: "pow2 1 = 2"
  by (simp add: pow2_def)

lemma pow2_Suc: "pow2 (e + 1) = 2 * pow2 e"
  unfolding pow2_add pow2_one by simp

lemma pow2_mono: "a \<le> b \<Longrightarrow> pow2 a \<le> pow2 b"
  by (simp add: pow2_powi power_int_increasing)

lemma pow2_nat: "0 \<le> e \<Longrightarrow> pow2 e = of_int (2 ^ nat e)"
  by (simp add: pow2_def)

lemma log2_up_bounds:
  "1 \<le> x \<Longrightarrow> pow2 (log2_up x e - e) \<le> x \<and> x < pow2 (log2_up x e - e + 1)"
proof (induction x e rule: log2_up.induct)
  case (1 x e)
  show ?case
  proof (cases "2 \<le> x")
    case True
    then have ih: "pow2 (log2_up (x / 2) (e + 1) - (e + 1)) \<le> x / 2
        \<and> x / 2 < pow2 (log2_up (x / 2) (e + 1) - (e + 1) + 1)"
      using 1 by simp
    have r: "log2_up x e = log2_up (x / 2) (e + 1)"
      using True by (subst log2_up.simps) simp
    define k where "k = log2_up (x / 2) (e + 1) - (e + 1)"
    have a: "pow2 k \<le> x / 2" "x / 2 < pow2 (k + 1)" using ih unfolding k_def by simp_all
    have e1: "log2_up x e - e = k + 1" unfolding r k_def by simp
    have "pow2 (k + 1) \<le> x" using a(1) unfolding pow2_Suc by simp
    moreover have "x < pow2 (k + 1 + 1)" using a(2) unfolding pow2_Suc [of "k + 1"] by simp
    ultimately show ?thesis unfolding e1 by (rule conjI)
  next
    case False
    then have r: "log2_up x e = e" by (subst log2_up.simps) simp
    show ?thesis unfolding r using False 1(2) by (simp add: pow2_def)
  qed
qed

lemma log2_down_bounds:
  "0 < x \<Longrightarrow> x < 2 \<Longrightarrow> pow2 (log2_down x e - e) \<le> x \<and> x < pow2 (log2_down x e - e + 1)"
proof (induction x e rule: log2_down.induct)
  case (1 x e)
  show ?case
  proof (cases "x < 1")
    case True
    then have ih: "pow2 (log2_down (x * 2) (e - 1) - (e - 1)) \<le> x * 2
        \<and> x * 2 < pow2 (log2_down (x * 2) (e - 1) - (e - 1) + 1)"
      using 1 by simp
    have r: "log2_down x e = log2_down (x * 2) (e - 1)"
      using True 1(2) by (subst log2_down.simps) simp
    define k where "k = log2_down (x * 2) (e - 1) - (e - 1)"
    have a: "pow2 k \<le> x * 2" "x * 2 < pow2 (k + 1)" using ih unfolding k_def by simp_all
    have e1: "log2_down x e - e = k - 1" unfolding r k_def by simp
    have "pow2 (k - 1 + 1) \<le> x * 2" using a(1) by simp
    then have "pow2 (k - 1) \<le> x" unfolding pow2_Suc by simp
    moreover have "x < pow2 (k - 1 + 1)" using a(2) unfolding pow2_Suc [of k] by simp
    ultimately show ?thesis unfolding e1 by (rule conjI)
  next
    case False
    then have r: "log2_down x e = e" by (subst log2_down.simps) simp
    show ?thesis unfolding r using False 1(3) by (simp add: pow2_def)
  qed
qed

lemma exponent_bounds:
  assumes "x \<noteq> 0"
  shows "pow2 (exponent x) \<le> \<bar>x\<bar>" and "\<bar>x\<bar> < pow2 (exponent x + 1)"
proof -
  have "pow2 (exponent x) \<le> \<bar>x\<bar> \<and> \<bar>x\<bar> < pow2 (exponent x + 1)"
  proof (cases "1 \<le> \<bar>x\<bar>")
    case True
    then show ?thesis using log2_up_bounds [of "\<bar>x\<bar>" 0] by (simp add: exponent_def)
  next
    case False
    then show ?thesis using log2_down_bounds [of "\<bar>x\<bar>" 0] assms by (simp add: exponent_def)
  qed
  then show "pow2 (exponent x) \<le> \<bar>x\<bar>" and "\<bar>x\<bar> < pow2 (exponent x + 1)" by simp_all
qed

lemma exponent_unique:
  assumes "pow2 e \<le> \<bar>x\<bar>" and "\<bar>x\<bar> < pow2 (e + 1)"
  shows "exponent x = e"
proof -
  have nz: "x \<noteq> 0" using assms(1) pow2_pos [of e] by auto
  note b = exponent_bounds [OF nz]
  have "\<not> exponent x < e"
  proof
    assume "exponent x < e"
    then have "pow2 (exponent x + 1) \<le> pow2 e" by (intro pow2_mono) simp
    then show False using b(2) assms(1) by linarith
  qed
  moreover have "\<not> e < exponent x"
  proof
    assume "e < exponent x"
    then have "pow2 (e + 1) \<le> pow2 (exponent x)" by (intro pow2_mono) simp
    then show False using b(1) assms(2) by linarith
  qed
  ultimately show ?thesis by simp
qed

lemma round_even_error: "\<bar>of_int (round_even y) - y\<bar> \<le> 1 / 2"
  unfolding round_even_def Let_def by (auto simp: abs_le_iff)

lemma round_even_int: "round_even (of_int k) = k"
  by (simp add: round_even_def)

lemma round_even_le: "y \<le> of_int k \<Longrightarrow> round_even y \<le> k"
proof -
  assume h: "y \<le> of_int k"
  have "\<lfloor>y\<rfloor> \<le> k" using h by (simp add: floor_le_iff) 
  show ?thesis
  proof (cases "y = of_int k")
    case True then show ?thesis by (simp add: round_even_int)
  next
    case False
    then have "y < of_int k" using h by simp
    then have "\<lfloor>y\<rfloor> < k" by (simp add: floor_less_iff)
    then show ?thesis unfolding round_even_def Let_def by auto
  qed
qed

lemma round_even_ge: "of_int k \<le> y \<Longrightarrow> k \<le> round_even y"
proof -
  assume h: "of_int k \<le> y"
  then have "k \<le> \<lfloor>y\<rfloor>" by (simp add: le_floor_iff)
  then show ?thesis unfolding round_even_def Let_def by auto
qed

subsection \<open>Rounding\<close>

lemma fl_zero: "fl 0 = 0"
  by (simp add: fl_def)

lemma fl_unfold: "x \<noteq> 0 \<Longrightarrow> fl x = of_int (round_even (x / pow2 (exponent x - 52))) * pow2 (exponent x - 52)"
  by (simp add: fl_def Let_def)

lemma pow2_52: "pow2 52 = 2 ^ 52" "pow2 53 = 2 ^ 53"
  by (simp_all add: pow2_def)

lemma pow2_split: "pow2 e = pow2 52 * pow2 (e - 52)" "pow2 (e + 1) = pow2 53 * pow2 (e - 52)"
proof -
  have "52 + (e - 52) = e" "53 + (e - 52) = e + 1" by simp_all
  then show "pow2 e = pow2 52 * pow2 (e - 52)" "pow2 (e + 1) = pow2 53 * pow2 (e - 52)"
    using pow2_add [of 52 "e - 52"] pow2_add [of 53 "e - 52"] by (simp_all add: add.commute)
qed

text \<open>The scaled significand lies in [2^52, 2^53).\<close>

lemma significand_bounds:
  assumes "x \<noteq> 0"
  shows "2 ^ 52 \<le> \<bar>x / pow2 (exponent x - 52)\<bar>" and "\<bar>x / pow2 (exponent x - 52)\<bar> < 2 ^ 53"
proof -
  let ?q = "pow2 (exponent x - 52)"
  have q: "0 < ?q" by (rule pow2_pos)
  have a: "\<bar>x / ?q\<bar> = \<bar>x\<bar> / ?q" using q by simp
  have "pow2 52 * ?q \<le> \<bar>x\<bar>" using exponent_bounds(1) [OF assms] pow2_split(1) [of "exponent x"] by simp
  then show "2 ^ 52 \<le> \<bar>x / ?q\<bar>" unfolding a using q by (simp add: pow2_52 pos_le_divide_eq)
  have "\<bar>x\<bar> < pow2 53 * ?q" using exponent_bounds(2) [OF assms] pow2_split(2) [of "exponent x"] by simp
  then show "\<bar>x / ?q\<bar> < 2 ^ 53" unfolding a using q by (simp add: pow2_52 pos_divide_less_eq)
qed

lemma fl_error:
  assumes "x \<noteq> 0"
  shows "\<bar>fl x - x\<bar> \<le> pow2 (exponent x - 52) / 2"
proof -
  let ?q = "pow2 (exponent x - 52)"
  have q: "0 < ?q" by (rule pow2_pos)
  have "fl x - x = (of_int (round_even (x / ?q)) - x / ?q) * ?q"
    using q by (simp add: fl_unfold [OF assms] algebra_simps)
  then have "\<bar>fl x - x\<bar> = \<bar>of_int (round_even (x / ?q)) - x / ?q\<bar> * ?q"
    using q by (simp add: abs_mult)
  also have "\<dots> \<le> (1 / 2) * ?q"
    using round_even_error [of "x / ?q"] q by (intro mult_right_mono) simp_all
  finally show ?thesis by simp
qed

lemma exponent_le:
  assumes "x \<noteq> 0" and "\<bar>x\<bar> \<le> pow2 k"
  shows "exponent x \<le> k"
proof (rule ccontr)
  assume "\<not> exponent x \<le> k"
  then have "k + 1 \<le> exponent x" by simp
  then have "pow2 (k + 1) \<le> pow2 (exponent x)" by (rule pow2_mono)
  then have "pow2 (k + 1) \<le> \<bar>x\<bar>" using exponent_bounds(1) [OF assms(1)] by linarith
  moreover have "pow2 k < pow2 (k + 1)" using pow2_pos [of k] by (simp add: pow2_Suc)
  ultimately show False using assms(2) by linarith
qed

text \<open>Rounding does not cross an integer, as long as integers are representable.\<close>

lemma fl_le_int:
  assumes "x \<le> of_int k" and "\<bar>x\<bar> \<le> 2 ^ 53"
  shows "fl x \<le> of_int k"
proof (cases "x = 0")
  case True
  then show ?thesis using assms by (simp add: fl_zero)
next
  case False
  let ?e = "exponent x"
  let ?q = "pow2 (?e - 52)"
  have q: "0 < ?q" by (rule pow2_pos)
  have e: "?e \<le> 53" using exponent_le [OF False, of 53] assms(2) by (simp add: pow2_52)
  have e52: "?e \<le> 52 \<or> \<bar>x\<bar> = 2 ^ 53"
  proof (rule ccontr)
    assume n: "\<not> (?e \<le> 52 \<or> \<bar>x\<bar> = 2 ^ 53)"
    then have "?e = 53" using e by simp
    then have "pow2 53 \<le> \<bar>x\<bar>" using exponent_bounds(1) [OF False] by simp
    then show False using n assms(2) by (simp add: pow2_52)
  qed
  show ?thesis
  proof (cases "?e \<le> 52")
    case True
    define j where "j = k * 2 ^ nat (52 - ?e)"
    have "pow2 (52 - ?e) * ?q = 1" using pow2_add [of "52 - ?e" "?e - 52"] by (simp add: pow2_def)
    moreover have "pow2 (52 - ?e) = of_int (2 ^ nat (52 - ?e))" using True by (intro pow2_nat) simp
    ultimately have kq: "of_int k = of_int j * ?q" unfolding j_def by (simp add: algebra_simps)
    then have "x / ?q \<le> of_int j" using assms(1) q by (simp add: pos_divide_le_eq)
    then have "round_even (x / ?q) \<le> j" by (rule round_even_le)
    then have "of_int (round_even (x / ?q)) * ?q \<le> of_int j * ?q"
      using q by (intro mult_right_mono) simp_all
    then show ?thesis unfolding fl_unfold [OF False] kq .
  next
    case False2: False
    then have ax: "\<bar>x\<bar> = 2 ^ 53" using e52 by simp
    have e53: "?e = 53" by (rule exponent_unique) (simp_all add: ax pow2_def)
    have q2: "?q = 2" unfolding e53 by (simp add: pow2_def)
    have "x = 2 ^ 53 \<or> x = - (2 ^ 53)" using ax by (simp add: abs_if split: if_splits)
    then have "fl x = x"
    proof
      assume "x = 2 ^ 53"
      then have "x / 2 = of_int (2 ^ 52)" by simp
      then have "round_even (x / 2) = 2 ^ 52" by (simp only: round_even_int)
      then show ?thesis unfolding fl_unfold [OF False] q2 using \<open>x = 2 ^ 53\<close> by simp
    next
      assume "x = - (2 ^ 53)"
      then have "x / 2 = of_int (- (2 ^ 52))" by simp
      then have "round_even (x / 2) = - (2 ^ 52)" by (simp only: round_even_int)
      then show ?thesis unfolding fl_unfold [OF False] q2 using \<open>x = - (2 ^ 53)\<close> by simp
    qed
    then show ?thesis using assms(1) by simp
  qed
qed

lemma fl_ge_int:
  assumes "of_int k \<le> x" and "\<bar>x\<bar> \<le> 2 ^ 53"
  shows "of_int k \<le> fl x"
proof (cases "x = 0")
  case True
  then show ?thesis using assms by (simp add: fl_zero)
next
  case False
  let ?e = "exponent x"
  let ?q = "pow2 (?e - 52)"
  have q: "0 < ?q" by (rule pow2_pos)
  have e: "?e \<le> 53" using exponent_le [OF False, of 53] assms(2) by (simp add: pow2_52)
  have e52: "?e \<le> 52 \<or> \<bar>x\<bar> = 2 ^ 53"
  proof (rule ccontr)
    assume n: "\<not> (?e \<le> 52 \<or> \<bar>x\<bar> = 2 ^ 53)"
    then have "?e = 53" using e by simp
    then have "pow2 53 \<le> \<bar>x\<bar>" using exponent_bounds(1) [OF False] by simp
    then show False using n assms(2) by (simp add: pow2_52)
  qed
  show ?thesis
  proof (cases "?e \<le> 52")
    case True
    define j where "j = k * 2 ^ nat (52 - ?e)"
    have "pow2 (52 - ?e) * ?q = 1" using pow2_add [of "52 - ?e" "?e - 52"] by (simp add: pow2_def)
    moreover have "pow2 (52 - ?e) = of_int (2 ^ nat (52 - ?e))" using True by (intro pow2_nat) simp
    ultimately have kq: "of_int k = of_int j * ?q" unfolding j_def by (simp add: algebra_simps)
    then have "of_int j \<le> x / ?q" using assms(1) q by (simp add: pos_le_divide_eq)
    then have "j \<le> round_even (x / ?q)" by (rule round_even_ge)
    then have "of_int j * ?q \<le> of_int (round_even (x / ?q)) * ?q"
      using q by (intro mult_right_mono) simp_all
    then show ?thesis unfolding fl_unfold [OF False] kq .
  next
    case False2: False
    then have ax: "\<bar>x\<bar> = 2 ^ 53" using e52 by simp
    have e53: "?e = 53" by (rule exponent_unique) (simp_all add: ax pow2_def)
    have q2: "?q = 2" unfolding e53 by (simp add: pow2_def)
    have "x = 2 ^ 53 \<or> x = - (2 ^ 53)" using ax by (simp add: abs_if split: if_splits)
    then have "fl x = x"
    proof
      assume "x = 2 ^ 53"
      then have "x / 2 = of_int (2 ^ 52)" by simp
      then have "round_even (x / 2) = 2 ^ 52" by (simp only: round_even_int)
      then show ?thesis unfolding fl_unfold [OF False] q2 using \<open>x = 2 ^ 53\<close> by simp
    next
      assume "x = - (2 ^ 53)"
      then have "x / 2 = of_int (- (2 ^ 52))" by simp
      then have "round_even (x / 2) = - (2 ^ 52)" by (simp only: round_even_int)
      then show ?thesis unfolding fl_unfold [OF False] q2 using \<open>x = - (2 ^ 53)\<close> by simp
    qed
    then show ?thesis using assms(1) by simp
  qed
qed

lemma div_cancel: "0 < (q :: real) \<Longrightarrow> x = a * q \<Longrightarrow> x / q = a"
  by simp

text \<open>A number with a significand of at most 53 bits is a double.\<close>

lemma fl_exact:
  assumes x: "x = of_int m * pow2 k" and m: "\<bar>m\<bar> \<le> 2 ^ 53"
  shows "fl x = x"
proof (cases "x = 0")
  case True
  then show ?thesis by (simp add: fl_zero)
next
  case False
  let ?e = "exponent x"
  let ?q = "pow2 (?e - 52)"
  have q: "0 < ?q" by (rule pow2_pos)
  have pk: "0 < pow2 k" by (rule pow2_pos)
  have ax: "\<bar>x\<bar> = of_int \<bar>m\<bar> * pow2 k" unfolding x using pk by (simp add: abs_mult)
  have "of_int \<bar>m\<bar> \<le> (2 :: real) ^ 53" using m by (metis of_int_le_iff of_int_numeral of_int_power)
  then have "\<bar>x\<bar> \<le> 2 ^ 53 * pow2 k" unfolding ax using pk by (intro mult_right_mono) simp_all
  also have "\<dots> = pow2 (k + 53)" using pow2_add [of 53 k] by (simp add: pow2_52 add.commute)
  finally have ek: "?e \<le> k + 53" by (rule exponent_le [OF False])
  have "\<exists>j. x / ?q = of_int j"
  proof (cases "?e \<le> k + 52")
    case True
    define d where "d = nat (k - ?e + 52)"
    have "pow2 k = pow2 (k - ?e + 52) * ?q" using pow2_add [of "k - ?e + 52" "?e - 52"] by simp
    moreover have "pow2 (k - ?e + 52) = of_int (2 ^ d)" unfolding d_def using True by (intro pow2_nat) simp
    ultimately have "of_int m * pow2 k = of_int (m * 2 ^ d) * ?q" by simp
    then have "x = of_int (m * 2 ^ d) * ?q" using x by simp
    then have "x / ?q = of_int (m * 2 ^ d)" by (rule div_cancel [OF q])
    then show ?thesis ..
  next
    case False2: False
    then have e: "?e = k + 53" using ek by simp
    have "pow2 (k + 53) \<le> \<bar>x\<bar>" using exponent_bounds(1) [OF False] unfolding e .
    then have "2 ^ 53 * pow2 k \<le> of_int \<bar>m\<bar> * pow2 k"
      unfolding ax using pow2_add [of 53 k] by (simp add: pow2_52 add.commute)
    then have "(2 :: real) ^ 53 \<le> of_int \<bar>m\<bar>" using pk by simp
    then have "2 ^ 53 \<le> \<bar>m\<bar>" by (metis of_int_le_iff of_int_numeral of_int_power)
    then have am: "\<bar>m\<bar> = 2 ^ 53" using m by simp
    then have "m = 2 ^ 53 \<or> m = - (2 ^ 53)" by (simp add: abs_if split: if_splits)
    then have "m = 2 * (m div 2)" by auto
    then have mm: "(of_int m :: real) = 2 * of_int (m div 2)" by (metis of_int_mult of_int_numeral)
    have "k + 53 - 52 = k + 1" by simp
    then have "?q = 2 * pow2 k" unfolding e using pow2_Suc [of k] by (simp only:)
    then have "x = of_int (m div 2) * ?q" using x mm by simp
    then have "x / ?q = of_int (m div 2)" by (rule div_cancel [OF q])
    then show ?thesis ..
  qed
  then obtain j where j: "x / ?q = of_int j" ..
  then have "x = of_int j * ?q" using q by (simp add: field_simps)
  then show ?thesis unfolding fl_unfold [OF False] j round_even_int by simp
qed

lemma fl_int: "\<bar>k\<bar> \<le> 2 ^ 53 \<Longrightarrow> fl (of_int k) = of_int k"
  using fl_exact [of "of_int k" k 0] by (simp add: pow2_def)

lemma fl_idem: "fl (fl x) = fl x"
proof (cases "x = 0")
  case True
  then show ?thesis by (simp add: fl_zero)
next
  case False
  let ?q = "pow2 (exponent x - 52)"
  let ?y = "x / ?q"
  note b = significand_bounds [OF False]
  have c: "real_of_int (2 ^ 53) = 2 ^ 53" "real_of_int (- (2 ^ 53)) = - (2 ^ 53)" by simp_all
  have "\<bar>?y\<bar> < 2 ^ 53" by (rule b(2))
  then have y: "?y \<le> of_int (2 ^ 53)" "of_int (- (2 ^ 53)) \<le> ?y" unfolding c by linarith+
  have "round_even ?y \<le> 2 ^ 53" "- (2 ^ 53) \<le> round_even ?y"
    by (rule round_even_le [OF y(1)], rule round_even_ge [OF y(2)])
  then have "\<bar>round_even ?y\<bar> \<le> 2 ^ 53" by (simp add: abs_le_iff)
  then show ?thesis by (rule fl_exact [OF fl_unfold [OF False]])
qed

section \<open>Heading normalisation in binary64: proofs\<close>

subsection \<open>A loop without progress does not return\<close>

lemma while_gt_180_fl_stuck:
  assumes "v > 180" and "fl (v - 360) = v"
  shows "while_gt_180_fl v = None"
proof (cases "while_gt_180_fl v")
  case None
  then show ?thesis .
next
  case (Some w)
  have "\<not> (v > 180 \<and> fl (v - 360) = v)"
  proof (rule while_gt_180_fl.raw_induct [where P = "\<lambda>x y. \<not> (x > 180 \<and> fl (x - 360) = x)", OF _ Some])
    fix f x y
    assume ih: "\<And>x y. f x = Some y \<Longrightarrow> \<not> (x > 180 \<and> fl (x - 360) = x)"
      and st: "(if x > 180 then f (fl (x - 360)) else Some x) = Some y"
    show "\<not> (x > 180 \<and> fl (x - 360) = x)"
    proof
      assume s: "x > 180 \<and> fl (x - 360) = x"
      then have "f x = Some y" using st by simp
      then show False using ih s by blast
    qed
  qed
  then show ?thesis using assms by simp
qed

lemma while_le_m180_fl_stuck:
  assumes "v \<le> - 180" and "fl (v + 360) = v"
  shows "while_le_m180_fl v = None"
proof (cases "while_le_m180_fl v")
  case None
  then show ?thesis .
next
  case (Some w)
  have "\<not> (v \<le> - 180 \<and> fl (v + 360) = v)"
  proof (rule while_le_m180_fl.raw_induct [where P = "\<lambda>x y. \<not> (x \<le> - 180 \<and> fl (x + 360) = x)", OF _ Some])
    fix f x y
    assume ih: "\<And>x y. f x = Some y \<Longrightarrow> \<not> (x \<le> - 180 \<and> fl (x + 360) = x)"
      and st: "(if x \<le> - 180 then f (fl (x + 360)) else Some x) = Some y"
    show "\<not> (x \<le> - 180 \<and> fl (x + 360) = x)"
    proof
      assume s: "x \<le> - 180 \<and> fl (x + 360) = x"
      then have "f x = Some y" using st by simp
      then show False using ih s by blast
    qed
  qed
  then show ?thesis using assms by simp
qed

lemma fl_1e19: "fl 10000000000000000000 = 10000000000000000000"
  "fl 9999999999999999640 = 10000000000000000000"
  by (simp_all add: fl_eval)

lemma while_gt_180_fl_1e19: "while_gt_180_fl 10000000000000000000 = None"
  by (rule while_gt_180_fl_stuck) (simp_all add: fl_1e19)

subsection \<open>The loops return on doubles of magnitude up to \<open>2 ^ 53\<close>\<close>

lemma while_gt_180_fl_returns:
  "v \<le> 2 ^ 53 \<Longrightarrow>
     \<exists>w. while_gt_180_fl v = Some w \<and> w \<le> 180 \<and> (w = v \<or> (- 180 \<le> w \<and> fl w = w))"
proof (induction "nat \<lceil>v\<rceil>" arbitrary: v rule: less_induct)
  case less
  show ?case
  proof (cases "v > 180")
    case False
    then have "while_gt_180_fl v = Some v" by (subst while_gt_180_fl.simps) simp
    then show ?thesis using False by simp
  next
    case True
    let ?v' = "fl (v - 360)"
    have b: "\<bar>v - 360\<bar> \<le> 2 ^ 53" using True less.prems by (simp add: abs_le_iff)
    have c53: "\<lceil>v\<rceil> \<le> 2 ^ 53"
    proof -
      have "v \<le> of_int (2 ^ 53)" using less.prems by simp
      then show ?thesis by (rule ceiling_le)
    qed
    have "v - 360 \<le> of_int (\<lceil>v\<rceil> - 360)" by simp
    then have up: "?v' \<le> of_int (\<lceil>v\<rceil> - 360)" using b by (rule fl_le_int)
    have "of_int (- 180) \<le> v - 360" using True by simp
    then have "of_int (- 180) \<le> ?v'" using b by (rule fl_ge_int)
    then have lo: "- 180 \<le> ?v'" by simp
    have "\<lceil>?v'\<rceil> \<le> \<lceil>v\<rceil> - 360" using up by (rule ceiling_le)
    moreover have "0 < \<lceil>v\<rceil>" using True by (simp add: ceiling_less_iff less_ceiling_iff)
    ultimately have m: "nat \<lceil>?v'\<rceil> < nat \<lceil>v\<rceil>" by simp
    have "real_of_int \<lceil>v\<rceil> \<le> of_int (2 ^ 53)" using c53 by (simp only: of_int_le_iff)
    then have cr: "real_of_int \<lceil>v\<rceil> \<le> 2 ^ 53" by simp
    have p: "?v' \<le> 2 ^ 53"
    proof -
      have "real_of_int (\<lceil>v\<rceil> - 360) = real_of_int \<lceil>v\<rceil> - 360" by simp
      then show ?thesis using up cr by linarith
    qed
    from less.hyps [OF m p] obtain w where
      w: "while_gt_180_fl ?v' = Some w" "w \<le> 180" "w = ?v' \<or> (- 180 \<le> w \<and> fl w = w)" by blast
    have r: "while_gt_180_fl v = while_gt_180_fl ?v'" using True by (subst while_gt_180_fl.simps) simp
    have "- 180 \<le> w \<and> fl w = w" using w(3) lo by (auto simp: fl_idem)
    then show ?thesis using r w(1,2) by simp
  qed
qed

lemma while_le_m180_fl_returns:
  "- (2 ^ 53) \<le> v \<Longrightarrow>
     \<exists>w. while_le_m180_fl v = Some w \<and> - 180 < w \<and> (w = v \<or> (w \<le> 180 \<and> fl w = w))"
proof (induction "nat (- \<lfloor>v\<rfloor>)" arbitrary: v rule: less_induct)
  case less
  show ?case
  proof (cases "v \<le> - 180")
    case False
    then have "while_le_m180_fl v = Some v" by (subst while_le_m180_fl.simps) simp
    then show ?thesis using False by simp
  next
    case True
    let ?v' = "fl (v + 360)"
    have b: "\<bar>v + 360\<bar> \<le> 2 ^ 53" using True less.prems by (simp add: abs_le_iff)
    have c53: "- (2 ^ 53) \<le> \<lfloor>v\<rfloor>"
    proof -
      have "of_int (- (2 ^ 53)) \<le> v" using less.prems by simp
      then show ?thesis by (simp only: le_floor_iff)
    qed
    have "of_int (\<lfloor>v\<rfloor> + 360) \<le> v + 360" by simp
    then have dn: "of_int (\<lfloor>v\<rfloor> + 360) \<le> ?v'" using b by (rule fl_ge_int)
    have "v + 360 \<le> of_int 180" using True by simp
    then have "?v' \<le> of_int 180" using b by (rule fl_le_int)
    then have hi: "?v' \<le> 180" by simp
    have "\<lfloor>v\<rfloor> + 360 \<le> \<lfloor>?v'\<rfloor>" using dn by (simp only: le_floor_iff)
    moreover have "\<lfloor>v\<rfloor> < 0" using True by (simp add: floor_less_iff)
    ultimately have m: "nat (- \<lfloor>?v'\<rfloor>) < nat (- \<lfloor>v\<rfloor>)" by simp
    have "of_int (- (2 ^ 53)) \<le> real_of_int \<lfloor>v\<rfloor>" using c53 by (simp only: of_int_le_iff)
    then have cr: "- (2 ^ 53) \<le> real_of_int \<lfloor>v\<rfloor>" by simp
    have p: "- (2 ^ 53) \<le> ?v'"
    proof -
      have "real_of_int (\<lfloor>v\<rfloor> + 360) = real_of_int \<lfloor>v\<rfloor> + 360" by simp
      then show ?thesis using dn cr by linarith
    qed
    from less.hyps [OF m p] obtain w where
      w: "while_le_m180_fl ?v' = Some w" "- 180 < w" "w = ?v' \<or> (w \<le> 180 \<and> fl w = w)" by blast
    have r: "while_le_m180_fl v = while_le_m180_fl ?v'" using True by (subst while_le_m180_fl.simps) simp
    have "w \<le> 180 \<and> fl w = w" using w(3) hi by (auto simp: fl_idem)
    then show ?thesis using r w(1,2) by simp
  qed
qed

text \<open>The fold into (-180, 180] of a double of magnitude at most 2^53.\<close>

lemma fold180_fl_returns:
  assumes "fl v = v" and "\<bar>v\<bar> \<le> 2 ^ 53"
  shows "\<exists>w. Option.bind (while_gt_180_fl v) while_le_m180_fl = Some w
            \<and> - 180 < w \<and> w \<le> 180 \<and> fl w = w"
proof -
  from assms(2) have "v \<le> 2 ^ 53" "- (2 ^ 53) \<le> v" by (simp_all add: abs_le_iff)
  from while_gt_180_fl_returns [OF this(1)] obtain w1 where
    w1: "while_gt_180_fl v = Some w1" "w1 \<le> 180" "w1 = v \<or> (- 180 \<le> w1 \<and> fl w1 = w1)" by blast
  have f1: "fl w1 = w1" using w1(3) assms(1) by auto
  have "- (2 ^ 53) \<le> w1" using w1(3) \<open>- (2 ^ 53) \<le> v\<close> by auto
  from while_le_m180_fl_returns [OF this] obtain w2 where
    w2: "while_le_m180_fl w1 = Some w2" "- 180 < w2" "w2 = w1 \<or> (w2 \<le> 180 \<and> fl w2 = w2)" by blast
  have "w2 \<le> 180 \<and> fl w2 = w2" using w2(3) w1(2) f1 by auto
  then show ?thesis using w1(1) w2(1,2) by simp
qed

lemma fold180_fl_fixed:
  assumes "- 180 < w" and "w \<le> 180"
  shows "Option.bind (while_gt_180_fl w) while_le_m180_fl = Some w"
proof -
  have "while_gt_180_fl w = Some w" using assms by (subst while_gt_180_fl.simps) simp
  moreover have "while_le_m180_fl w = Some w" using assms by (subst while_le_m180_fl.simps) simp
  ultimately show ?thesis by simp
qed

text \<open>So on doubles of magnitude up to \<open>2 ^ 53\<close> the fold of \<^verbatim>\<open>normalizeAngle\<close> in the mode
  \<^verbatim>\<open>-180-180\<close> and \<^verbatim>\<open>getAngleDifference\<close> return, with a value in the range.\<close>

lemma normalizeAngle_fl_range_bounded:
  assumes "angleMode cfg = ''-180-180''" and "\<bar>fl (a + angleOffset cfg)\<bar> \<le> 2 ^ 53"
  shows "\<exists>v. normalizeAngle_fl cfg a None = Some v \<and> - 180 < v \<and> v \<le> 180"
proof -
  from fold180_fl_returns [OF fl_idem assms(2)] obtain w where
    w: "Option.bind (while_gt_180_fl (fl (a + angleOffset cfg))) while_le_m180_fl = Some w"
       "- 180 < w" "w \<le> 180" by blast
  then show ?thesis by (simp add: normalizeAngle_fl_def assms(1))
qed

lemma getAngleDifference_fl_bounded:
  assumes "\<bar>fl (b - a)\<bar> \<le> 2 ^ 53"
  shows "\<exists>d. getAngleDifference_fl a b = Some d \<and> 0 \<le> d \<and> d \<le> 180"
proof -
  from fold180_fl_returns [OF fl_idem assms] obtain w where
    w: "Option.bind (while_gt_180_fl (fl (b - a))) while_le_m180_fl = Some w"
       "- 180 < w" "w \<le> 180" by blast
  then show ?thesis by (simp add: getAngleDifference_fl_def abs_le_iff)
qed

subsection \<open>The claims about normalisation\<close>

text \<open>On the angle \<open>0\<close> with the offset \<open>10 ^ 19\<close> the branch for the mode \<^verbatim>\<open>0-360\<close>, which folds with
  the remainder, returns.\<close>

lemma normalizeAngle_fl_mode360_returns:
  "normalizeAngle_fl (defaultSettings \<lparr> angleMode := ''0-360'', angleOffset := 10 ^ 19 \<rparr>) 0 None
     = Some 280"
  by (simp add: normalizeAngle_fl_def defaultSettings_def fl_eval jsmod_def trunc_def)

text \<open>Claim C4 (range of \<open>normalizeAngle\<close> for every finite angle and offset). With the angle
  \<open>0\<close>, the offset \<open>10 ^ 19\<close> and the mode \<^verbatim>\<open>-180-180\<close> the call does not return: the sum is the
  double \<open>10 ^ 19\<close>, whose neighbours are \<open>2048\<close> apart, so \<open>10 ^ 19 - 360\<close> rounds to \<open>10 ^ 19\<close>
  and the loop \<^verbatim>\<open>while (normalized > 180) normalized -= 360\<close> never ends.\<close>

theorem normalizeAngle_fl_hangs:
  "normalizeAngle_fl (defaultSettings \<lparr> angleOffset := 10 ^ 19 \<rparr>) 0 None = None"
  by (simp add: normalizeAngle_fl_def defaultSettings_def fl_1e19 while_gt_180_fl_1e19)

text \<open>Claim C6 (the angular difference is at most 180 for every pair of finite headings). The
  call \<^verbatim>\<open>getAngleDifference(0, 1e19)\<close> does not return, for the same reason.\<close>

theorem getAngleDifference_fl_hangs: "getAngleDifference_fl 0 (10 ^ 19) = None"
  by (simp add: getAngleDifference_fl_def fl_1e19 while_gt_180_fl_1e19)

lemma normalizeAngle_fl_offset90:
  "normalizeAngle_fl (defaultSettings \<lparr> angleOffset := 90 \<rparr>) 0 None = Some 90"
  "normalizeAngle_fl (defaultSettings \<lparr> angleOffset := 90 \<rparr>) 90 None = Some 180"
  by (simp_all add: normalizeAngle_fl_def defaultSettings_def fl_eval fold180_fl_fixed)

text \<open>Claim C5, as stated, fails: the offset is added by every call, so with \<open>angleOffset = 90\<close>
  the angle \<open>0\<close> is normalised to \<open>90\<close>, and \<open>90\<close> to \<open>180\<close>.\<close>

theorem normalizeAngle_fl_not_idempotent:
  "normalizeAngle_fl (defaultSettings \<lparr> angleOffset := 90 \<rparr>) 0 None = Some 90
   \<and> normalizeAngle_fl (defaultSettings \<lparr> angleOffset := 90 \<rparr>) 90 None = Some 180"
  by (simp add: normalizeAngle_fl_offset90)

text \<open>In the mode \<^verbatim>\<open>0-360\<close> the sum \<^verbatim>\<open>(normalized % 360) + 360\<close> is rounded, so a heading in
  \<open>[0, 360)\<close> need not come back: with offset \<open>0\<close> the double \<open>-200.1\<close> is normalised to
  \<open>159.9\<close>, and \<open>159.9\<close> to \<open>159.89999999999998\<close>. The same happens in the mode \<^verbatim>\<open>-180-180\<close> with
  the offset \<open>360\<close>, where the sum \<^verbatim>\<open>angle + angleOffset\<close> is rounded.\<close>

lemma normalizeAngle_fl_mode360_example:
  "normalizeAngle_fl (defaultSettings \<lparr> angleMode := ''0-360'' \<rparr>)
       (- (7040392854975283 / 35184372088832)) None
     = Some (5625981097004237 / 35184372088832)"
  "normalizeAngle_fl (defaultSettings \<lparr> angleMode := ''0-360'' \<rparr>)
       (5625981097004237 / 35184372088832) None
     = Some (1406495274251059 / 8796093022208)"
  by (simp_all add: normalizeAngle_fl_def defaultSettings_def fl_eval jsmod_def trunc_def)

lemma fold180_fl_one_step:
  assumes "180 < v" and "- 180 < fl (v - 360)" and "fl (v - 360) \<le> 180"
  shows "Option.bind (while_gt_180_fl v) while_le_m180_fl = Some (fl (v - 360))"
proof -
  have "while_gt_180_fl v = while_gt_180_fl (fl (v - 360))"
    using assms(1) by (subst while_gt_180_fl.simps) simp
  then show ?thesis using fold180_fl_fixed [OF assms(2,3)] by simp
qed

lemma normalizeAngle_fl_offset360_example:
  "normalizeAngle_fl (defaultSettings \<lparr> angleOffset := 360 \<rparr>)
       (- (7040392854975283 / 35184372088832)) None
     = Some (5625981097004237 / 35184372088832)"
  "normalizeAngle_fl (defaultSettings \<lparr> angleOffset := 360 \<rparr>)
       (5625981097004237 / 35184372088832) None
     = Some (1406495274251059 / 8796093022208)"
  by (simp_all add: normalizeAngle_fl_def defaultSettings_def fl_eval fold180_fl_fixed fold180_fl_one_step)


text \<open>Claim C5, amended: with \<open>angleOffset = 0\<close> and the mode \<^verbatim>\<open>-180-180\<close>, for every double \<open>a\<close>
  of magnitude at most \<open>2 ^ 53\<close> the call \<^verbatim>\<open>normalizeAngle(a, null)\<close> returns, and normalising
  its result again returns the same value.\<close>

theorem normalizeAngle_fl_idempotent:
  assumes "angleOffset cfg = 0" and "angleMode cfg = ''-180-180''"
    and "fl a = a" and "\<bar>a\<bar> \<le> 2 ^ 53"
  shows "\<exists>v. normalizeAngle_fl cfg a None = Some v \<and> normalizeAngle_fl cfg v None = Some v"
proof -
  from fold180_fl_returns [OF assms(3,4)] obtain w where
    w: "Option.bind (while_gt_180_fl a) while_le_m180_fl = Some w" "- 180 < w" "w \<le> 180" "fl w = w"
    by blast
  have 1: "normalizeAngle_fl cfg a None = Some w"
    using w(1) by (simp add: normalizeAngle_fl_def assms(1,2,3))
  have 2: "normalizeAngle_fl cfg w None = Some w"
    using fold180_fl_fixed [OF w(2,3)] by (simp add: normalizeAngle_fl_def assms(1,2) w(4))
  show ?thesis using 1 2 by blast
qed

lemma normalizeAngle_fl_270: "normalizeAngle_fl defaultSettings 270 None = Some (- 90)"
proof -
  have "while_gt_180_fl 270 = while_gt_180_fl (- 90)"
    by (subst while_gt_180_fl.simps) (simp add: fl_eval)
  moreover have "while_gt_180_fl (- 90) = Some (- 90)" by (subst while_gt_180_fl.simps) simp
  moreover have "while_le_m180_fl (- 90) = Some (- 90)" by (subst while_le_m180_fl.simps) simp
  ultimately show ?thesis by (simp add: normalizeAngle_fl_def defaultSettings_def fl_eval)
qed

theorem normalizeAngle_fl_idempotent_witness:
  "angleOffset defaultSettings = 0 \<and> angleMode defaultSettings = ''-180-180''
   \<and> fl 270 = 270 \<and> \<bar>270 :: real\<bar> \<le> 2 ^ 53
   \<and> normalizeAngle_fl defaultSettings 270 None = Some (- 90)
   \<and> normalizeAngle_fl defaultSettings (- 90) None = Some (- 90)"
proof -
  have h: "angleOffset defaultSettings = 0" "angleMode defaultSettings = ''-180-180''"
    by (simp_all add: defaultSettings_def)
  have f: "fl 270 = 270" by (simp add: fl_eval)
  have b: "\<bar>270 :: real\<bar> \<le> 2 ^ 53" by simp
  from normalizeAngle_fl_idempotent [OF h f b] obtain v where
    v: "normalizeAngle_fl defaultSettings 270 None = Some v"
       "normalizeAngle_fl defaultSettings v None = Some v" by blast
  from v(1) have "v = - 90" by (simp add: normalizeAngle_fl_270)
  then show ?thesis using h f b v by simp
qed


section \<open>Parser: proofs\<close>

subsection \<open>The scale-factor guard\<close>

lemma jdiv_guarded_finite:
  "isFinite (jdiv (Finite a) (or_else sf (Finite 1)))"
  by (cases sf) (auto simp: or_else_def falsy_def isFinite_def)

lemma parseGCode_line_finite:
  assumes "list_all (\<lambda>s. isFinite (sx s) \<and> isFinite (sy s)) (snd (snd st))"
  shows "list_all (\<lambda>s. isFinite (sx s) \<and> isFinite (sy s)) (snd (snd (parseGCode_line cfg st raw)))"
  using assms
  by (auto simp: parseGCode_line_def Let_def jdiv_guarded_finite split: option.splits)

lemma parseGCode_fold_finite:
  "list_all (\<lambda>s. isFinite (sx s) \<and> isFinite (sy s)) (snd (snd st)) \<Longrightarrow>
   list_all (\<lambda>s. isFinite (sx s) \<and> isFinite (sy s)) (snd (snd (foldl (parseGCode_line cfg) st ls)))"
proof (induction ls arbitrary: st)
  case Nil
  then show ?case by simp
next
  case (Cons l ls)
  show ?case using Cons.IH[OF parseGCode_line_finite[OF Cons.prems]] by simp
qed

lemma parseGCode_line_falsy:
  "falsy (scaleFactor cfg) \<Longrightarrow>
   parseGCode_line cfg st raw = parseGCode_line (cfg\<lparr>scaleFactor := Finite 1\<rparr>) st raw"
proof -
  assume "falsy (scaleFactor cfg)"
  then have eq: "or_else (scaleFactor cfg) (Finite 1)
      = or_else (scaleFactor (cfg\<lparr>scaleFactor := Finite 1\<rparr>)) (Finite 1)"
    by (simp add: or_else_def falsy_def)
  show ?thesis unfolding parseGCode_line_def eq by (rule refl)
qed

text \<open>
  Claim C10. \<open>parseGCode\<close> divides by \<^verbatim>\<open>Number(machineSettings.scaleFactor) || 1\<close>: when the scale
  factor is \<open>0\<close> or \<^verbatim>\<open>NaN\<close> (the number that every non-numeric value converts to), the result is
  the one for the scale factor \<open>1\<close>, and every coordinate of every emitted sample is finite.
\<close>

theorem parseGCode_scale_guard:
  assumes "scaleFactor cfg = Finite 0 \<or> scaleFactor cfg = NaN"
  shows "parseGCode cfg text = parseGCode (cfg\<lparr>scaleFactor := Finite 1\<rparr>) text
       \<and> (\<forall>s \<in> set (parseGCode cfg text). isFinite (sx s) \<and> isFinite (sy s))"
proof -
  have f: "falsy (scaleFactor cfg)" using assms by (simp add: falsy_def)
  have "parseGCode_line cfg = parseGCode_line (cfg\<lparr>scaleFactor := Finite 1\<rparr>)"
    using parseGCode_line_falsy[OF f] by blast
  then have a: "parseGCode cfg text = parseGCode (cfg\<lparr>scaleFactor := Finite 1\<rparr>) text"
    by (simp add: parseGCode_def)
  have "list_all (\<lambda>s. isFinite (sx s) \<and> isFinite (sy s)) (parseGCode cfg text)"
    unfolding parseGCode_def by (rule parseGCode_fold_finite) simp
  then show ?thesis using a by (simp add: list_all_iff)
qed


lemma parseGCode_NaN_example:
  "parseGCode (defaultSettings\<lparr>scaleFactor := NaN\<rparr>) ''G1 X2 Y3''
     = [\<lparr>sx = Finite 2, sy = Finite (- 3)\<rparr>]"
  by code_simp

theorem parseGCode_scale_guard_witness:
  "(scaleFactor (defaultSettings\<lparr>scaleFactor := NaN\<rparr>) = Finite 0
      \<or> scaleFactor (defaultSettings\<lparr>scaleFactor := NaN\<rparr>) = NaN)
   \<and> parseGCode (defaultSettings\<lparr>scaleFactor := Finite 1\<rparr>) ''G1 X2 Y3''
       = [\<lparr>sx = Finite 2, sy = Finite (- 3)\<rparr>]
   \<and> list_all (\<lambda>s. isFinite (sx s) \<and> isFinite (sy s))
         (parseGCode (defaultSettings\<lparr>scaleFactor := NaN\<rparr>) ''G1 X2 Y3'')"
proof -
  have h: "scaleFactor (defaultSettings\<lparr>scaleFactor := NaN\<rparr>) = Finite 0
      \<or> scaleFactor (defaultSettings\<lparr>scaleFactor := NaN\<rparr>) = NaN" by simp
  note t = parseGCode_scale_guard[OF h, of "''G1 X2 Y3''"]
  have e: "parseGCode (defaultSettings\<lparr>scaleFactor := NaN\<rparr>) ''G1 X2 Y3''
      = parseGCode (defaultSettings\<lparr>scaleFactor := Finite 1\<rparr>) ''G1 X2 Y3''"
    using t by simp
  have a: "parseGCode (defaultSettings\<lparr>scaleFactor := Finite 1\<rparr>) ''G1 X2 Y3''
       = [\<lparr>sx = Finite 2, sy = Finite (- 3)\<rparr>]"
    unfolding e[symmetric] by (rule parseGCode_NaN_example)
  have b: "list_all (\<lambda>s. isFinite (sx s) \<and> isFinite (sy s))
         (parseGCode (defaultSettings\<lparr>scaleFactor := NaN\<rparr>) ''G1 X2 Y3'')"
    using t by (simp add: list_all_iff)
  show ?thesis using h a b by blast
qed

subsection \<open>Modal semantics\<close>

lemma map_filter_snoc:
  "List.map_filter f (xs @ [x]) = List.map_filter f xs @ (case f x of None \<Rightarrow> [] | Some y \<Rightarrow> [y])"
  by (cases "f x") (simp_all add: List.map_filter_def)

lemma spec_last_seen_snoc:
  "spec_last_seen l u (ls @ [x]) = update_last (match_field l u x) (spec_last_seen l u ls)"
  by (cases "match_field l u x") (simp_all add: spec_last_seen_def update_last_def map_filter_snoc)

lemma spec_last_seen_Nil: "spec_last_seen l u [] = None"
  by (simp add: spec_last_seen_def List.map_filter_def)

lemma spec_modal_Nil: "spec_modal emit [] = []"
  by (simp add: spec_modal_def)

lemma spec_modal_snoc:
  "spec_modal emit (ls @ [x]) =
     spec_modal emit ls @
     (case (spec_last_seen CHR ''x'' CHR ''X'' (ls @ [x]), spec_last_seen CHR ''y'' CHR ''Y'' (ls @ [x])) of
        (Some a, Some b) \<Rightarrow> [emit a b (spec_last_seen CHR ''c'' CHR ''C'' (ls @ [x]))]
      | _ \<Rightarrow> [])"
proof -
  have a: "[1..<Suc (length (ls @ [x]))] = [1..<Suc (length ls)] @ [Suc (length ls)]" by simp
  have b: "map (\<lambda>n. case (spec_last_seen CHR ''x'' CHR ''X'' (take n (ls @ [x])),
                                spec_last_seen CHR ''y'' CHR ''Y'' (take n (ls @ [x]))) of
                          (Some a, Some b) \<Rightarrow>
                            [emit a b (spec_last_seen CHR ''c'' CHR ''C'' (take n (ls @ [x])))]
                        | _ \<Rightarrow> []) [1..<Suc (length ls)]
         = map (\<lambda>n. case (spec_last_seen CHR ''x'' CHR ''X'' (take n ls),
                                spec_last_seen CHR ''y'' CHR ''Y'' (take n ls)) of
                          (Some a, Some b) \<Rightarrow>
                            [emit a b (spec_last_seen CHR ''c'' CHR ''C'' (take n ls))]
                        | _ \<Rightarrow> []) [1..<Suc (length ls)]"
  proof (rule map_cong[OF refl])
    fix n assume "n \<in> set [1..<Suc (length ls)]"
    then have "n \<le> length ls" by auto
    then have t: "take n (ls @ [x]) = take n ls" by simp
    show "(case (spec_last_seen CHR ''x'' CHR ''X'' (take n (ls @ [x])),
                                spec_last_seen CHR ''y'' CHR ''Y'' (take n (ls @ [x]))) of
                          (Some a, Some b) \<Rightarrow>
                            [emit a b (spec_last_seen CHR ''c'' CHR ''C'' (take n (ls @ [x])))]
                        | _ \<Rightarrow> [])
         = (case (spec_last_seen CHR ''x'' CHR ''X'' (take n ls),
                                spec_last_seen CHR ''y'' CHR ''Y'' (take n ls)) of
                          (Some a, Some b) \<Rightarrow>
                            [emit a b (spec_last_seen CHR ''c'' CHR ''C'' (take n ls))]
                        | _ \<Rightarrow> [])"
      unfolding t by (rule refl)
  qed
  have c: "take (Suc (length ls)) (ls @ [x]) = ls @ [x]" by simp
  show ?thesis unfolding spec_modal_def a map_append concat_append b
    by (simp only: list.map concat.simps append_Nil2 c)
qed

lemma parseGCode_line_spec:
  "parseGCode_line cfg (lx, ly, out) raw =
     (if spec_parse_motion (clean_line raw) then
        (let lx' = update_last (match_field CHR ''x'' CHR ''X'' (clean_line raw)) lx;
             ly' = update_last (match_field CHR ''y'' CHR ''Y'' (clean_line raw)) ly
         in (lx', ly', out @ (case (lx', ly') of (Some a, Some b) \<Rightarrow> [parse_emit cfg a b None] | _ \<Rightarrow> [])))
      else (lx, ly, out))"
  by (auto simp: parseGCode_line_def spec_parse_motion_def Let_def parse_emit_def split: option.splits)

lemma parseGCode_fold_spec:
  "foldl (parseGCode_line cfg) (None, None, []) rs =
     (spec_last_seen CHR ''x'' CHR ''X'' (filter spec_parse_motion (map clean_line rs)),
      spec_last_seen CHR ''y'' CHR ''Y'' (filter spec_parse_motion (map clean_line rs)),
      spec_modal (parse_emit cfg) (filter spec_parse_motion (map clean_line rs)))"
proof (induction rs rule: rev_induct)
  case Nil
  show ?case by (simp add: spec_last_seen_Nil spec_modal_Nil)
next
  case (snoc r rs)
  show ?case
    by (simp add: snoc.IH parseGCode_line_spec spec_last_seen_snoc spec_modal_snoc Let_def parse_emit_def
          split: option.splits)
qed

lemma preview_line_spec:
  "preview_line cfg ((lx, ly, lc), ms) raw =
     (if spec_preview_motion (clean_line raw) then
        (let lx' = update_last (match_field CHR ''x'' CHR ''X'' (clean_line raw)) lx;
             ly' = update_last (match_field CHR ''y'' CHR ''Y'' (clean_line raw)) ly;
             lc' = update_last (match_field CHR ''c'' CHR ''C'' (clean_line raw)) lc
         in ((lx', ly', lc'), ms @ (case (lx', ly') of (Some a, Some b) \<Rightarrow> [preview_emit cfg a b lc'] | _ \<Rightarrow> [])))
      else ((lx, ly, lc), ms))"
  by (auto simp: preview_line_def spec_preview_motion_def Let_def preview_emit_def split: option.splits)

lemma preview_fold_spec:
  "foldl (preview_line cfg) ((None, None, None), []) rs =
     ((spec_last_seen CHR ''x'' CHR ''X'' (filter spec_preview_motion (map clean_line rs)),
       spec_last_seen CHR ''y'' CHR ''Y'' (filter spec_preview_motion (map clean_line rs)),
       spec_last_seen CHR ''c'' CHR ''C'' (filter spec_preview_motion (map clean_line rs))),
      spec_modal (preview_emit cfg) (filter spec_preview_motion (map clean_line rs)))"
proof (induction rs rule: rev_induct)
  case Nil
  show ?case by (simp add: spec_last_seen_Nil spec_modal_Nil)
next
  case (snoc r rs)
  show ?case
    by (simp add: snoc.IH preview_line_spec spec_last_seen_snoc spec_modal_snoc Let_def preview_emit_def
          split: option.splits)
qed

lemma spec_last_seen_take_None:
  "spec_last_seen l u ls = None \<Longrightarrow> spec_last_seen l u (take n ls) = None"
proof -
  assume "spec_last_seen l u ls = None"
  then have "List.map_filter (match_field l u) ls = []" by (simp add: spec_last_seen_def split: if_splits)
  then have "\<forall>x \<in> set ls. match_field l u x = None"
    by (auto simp: List.map_filter_def filter_empty_conv)
  then have "\<forall>x \<in> set (take n ls). match_field l u x = None" by (meson in_set_takeD)
  then have "List.map_filter (match_field l u) (take n ls) = []"
    by (auto simp: List.map_filter_def filter_empty_conv)
  then show ?thesis by (simp add: spec_last_seen_def)
qed

lemma spec_modal_empty:
  "spec_last_seen CHR ''x'' CHR ''X'' ls = None \<or> spec_last_seen CHR ''y'' CHR ''Y'' ls = None
   \<Longrightarrow> spec_modal emit ls = []"
  by (auto simp: spec_modal_def spec_last_seen_take_None split: option.splits)

text \<open>
  Claim C7. Both parsers keep \<open>X\<close> and \<open>Y\<close> (and \<open>C\<close> in \<^verbatim>\<open>buildPreviewFromGCode\<close>) as running
  last-seen values over the motion lines of the whole text: the output is the modal extraction
  \<open>spec_modal\<close>, in which a line without a field inherits the value last seen and a sample is
  emitted exactly at the motion lines by which both \<open>X\<close> and \<open>Y\<close> have been seen. A text in
  which no line carries \<open>X\<close>, or no line carries \<open>Y\<close>, yields the empty list.
\<close>

theorem parser_modal_semantics:
  "parseGCode cfg text =
     spec_modal (parse_emit cfg) (filter spec_parse_motion (map clean_line (split_lines text)))
   \<and> preview_moves cfg text =
     spec_modal (preview_emit cfg) (filter spec_preview_motion (map clean_line (split_lines text)))
   \<and> ((\<forall>line \<in> set (map clean_line (split_lines text)). match_field CHR ''x'' CHR ''X'' line = None)
       \<or> (\<forall>line \<in> set (map clean_line (split_lines text)). match_field CHR ''y'' CHR ''Y'' line = None)
      \<longrightarrow> parseGCode cfg text = [] \<and> preview_moves cfg text = [])"
proof -
  have a: "parseGCode cfg text =
     spec_modal (parse_emit cfg) (filter spec_parse_motion (map clean_line (split_lines text)))"
    by (simp add: parseGCode_def parseGCode_fold_spec)
  have b: "preview_moves cfg text =
     spec_modal (preview_emit cfg) (filter spec_preview_motion (map clean_line (split_lines text)))"
    by (simp add: preview_moves_def preview_fold_spec)
  have c: "spec_last_seen l u (filter P ls) = None" if "\<forall>line \<in> set ls. match_field l u line = None"
    for l u P and ls :: "string list"
    using that by (auto simp: spec_last_seen_def List.map_filter_def filter_empty_conv)
  show ?thesis using a b c spec_modal_empty by metis
qed

theorem parser_modal_semantics_witness:
  "parseGCode defaultSettings ''G1 Y2\<newline>G1 Z3'' = []
   \<and> preview_moves defaultSettings ''G1 Y2\<newline>G1 Z3'' = []"
proof -
  have h: "\<forall>line \<in> set (map clean_line (split_lines ''G1 Y2\<newline>G1 Z3'')).
       match_field CHR ''x'' CHR ''X'' line = None" by code_simp
  show ?thesis
    using parser_modal_semantics[of defaultSettings "''G1 Y2\<newline>G1 Z3''"] h by blast
qed


section \<open>Playback path: proofs\<close>

lemma isFinite_iff: "isFinite n \<longleftrightarrow> (\<exists>a. n = Finite a)"
  by (cases n) (simp_all add: isFinite_def)

lemma jdiv_unguarded_finite:
  "\<not> falsy sf \<Longrightarrow> isFinite (jdiv (Finite a) sf)"
  by (cases sf) (auto simp: falsy_def isFinite_def)

lemma preview_line_finite:
  assumes "\<not> falsy (scaleFactor cfg)" "list_all move_finite (snd st)"
  shows "list_all move_finite (snd (preview_line cfg st raw))"
  using assms
  by (auto simp: preview_line_def Let_def move_finite_def jdiv_unguarded_finite split: option.splits)

lemma preview_fold_finite:
  "\<not> falsy (scaleFactor cfg) \<Longrightarrow> list_all move_finite (snd st) \<Longrightarrow>
   list_all move_finite (snd (foldl (preview_line cfg) st ls))"
proof (induction ls arbitrary: st)
  case Nil
  then show ?case by simp
next
  case (Cons l ls)
  show ?case using Cons.IH[OF Cons.prems(1) preview_line_finite[OF Cons.prems]] by simp
qed

lemma preview_moves_finite:
  "\<not> falsy (scaleFactor cfg) \<Longrightarrow> list_all move_finite (preview_moves cfg text)"
  unfolding preview_moves_def by (rule preview_fold_finite) simp_all

lemma seg_chain_snoc:
  assumes "seg_chain c0 segs m" "isFinite (x1 s)" "isFinite (y1 s)" "isFinite (x2 s)" "isFinite (y2 s)"
    "cumStart s = Finite m" "len s = Finite l" "1 / 10 ^ 6 < l" "cumEnd s = Finite (m + l)"
  shows "seg_chain c0 (segs @ [s]) (m + l)"
  using assms(1)
proof (induction segs arbitrary: c0)
  case Nil
  then show ?case using assms(2-) by simp
next
  case (Cons a segs)
  then show ?case by (auto split: jsnum.splits)
qed

lemma build_segments_chain:
  assumes "list_all move_finite ms" "cum = Finite c" "seg_chain c0 segs c"
  shows "\<exists>T. snd (build_segments ms cum segs) = Finite T
           \<and> seg_chain c0 (fst (build_segments ms cum segs)) T"
  using assms
proof (induction ms cum segs arbitrary: c rule: build_segments.induct)
  case (1 a b ms cum segs)
  from "1.prems"(1) obtain ax ay bx "by" where
    fa: "mx a = Finite ax" "my a = Finite ay" and fb: "mx b = Finite bx" "my b = Finite by"
    by (auto simp: move_finite_def isFinite_iff)
  define l where "l = sqrt ((bx - ax) * (bx - ax) + (by - ay) * (by - ay))"
  have hl: "jhypot (jsub (mx b) (mx a)) (jsub (my b) (my a)) = Finite l"
    by (simp add: fa fb jsub_def l_def)
  have rest: "list_all move_finite (b # ms)" using "1.prems"(1) by simp
  show ?case
  proof (cases "l \<le> 1 / 10 ^ 6")
    case True
    then have j: "jle (jhypot (jsub (mx b) (mx a)) (jsub (my b) (my a))) (Finite (1 / 10 ^ 6))"
      by (simp add: hl)
    have "build_segments (a # b # ms) cum segs = build_segments (b # ms) cum segs"
      using j by (simp add: Let_def)
    moreover have "\<exists>T. snd (build_segments (b # ms) cum segs) = Finite T
           \<and> seg_chain c0 (fst (build_segments (b # ms) cum segs)) T"
      using "1.IH"(1)[OF refl refl refl j rest "1.prems"(2) "1.prems"(3)] .
    ultimately show ?thesis by simp
  next
    case False
    then have j: "\<not> jle (jhypot (jsub (mx b) (mx a)) (jsub (my b) (my a))) (Finite (1 / 10 ^ 6))"
      by (simp add: hl)
    define seg where "seg = \<lparr> x1 = mx a, y1 = my a, x2 = mx b, y2 = my b,
        len = jhypot (jsub (mx b) (mx a)) (jsub (my b) (my a)),
        cumStart = cum, cumEnd = jadd cum (jhypot (jsub (mx b) (mx a)) (jsub (my b) (my a))),
        angle = mc b,
        angleDiff = (case (mc a, mc b) of (Some ca, Some cb) \<Rightarrow> getAngleDifference ca cb | _ \<Rightarrow> 0) \<rparr>"
    have e: "build_segments (a # b # ms) cum segs
        = build_segments (b # ms) (jadd cum (jhypot (jsub (mx b) (mx a)) (jsub (my b) (my a)))) (segs @ [seg])"
      using j by (simp add: Let_def seg_def)
    have c1: "jadd cum (jhypot (jsub (mx b) (mx a)) (jsub (my b) (my a))) = Finite (c + l)"
      by (simp add: hl "1.prems"(2))
    have c2: "seg_chain c0 (segs @ [seg]) (c + l)"
      using "1.prems"(3)
    proof (rule seg_chain_snoc)
      show "isFinite (x1 seg)" "isFinite (y1 seg)" "isFinite (x2 seg)" "isFinite (y2 seg)"
        by (simp_all add: seg_def fa fb isFinite_def)
      show "cumStart seg = Finite c" by (simp add: seg_def "1.prems"(2))
      show "len seg = Finite l" by (simp add: seg_def hl)
      show "1 / 10 ^ 6 < l" using False by simp
      show "cumEnd seg = Finite (c + l)" by (simp add: seg_def c1)
    qed
    have "\<exists>T. snd (build_segments (b # ms) (jadd cum (jhypot (jsub (mx b) (mx a)) (jsub (my b) (my a)))) (segs @ [seg])) = Finite T
           \<and> seg_chain c0 (fst (build_segments (b # ms) (jadd cum (jhypot (jsub (mx b) (mx a)) (jsub (my b) (my a)))) (segs @ [seg]))) T"
      using "1.IH"(2)[OF refl refl refl j refl _ rest c1 c2] by (simp add: seg_def)
    then show ?thesis using e by simp
  qed
qed simp_all

lemma seg_chain_mono: "seg_chain c segs T \<Longrightarrow> c \<le> T"
proof (induction segs arbitrary: c)
  case Nil
  then show ?case by simp
next
  case (Cons s ss)
  then obtain l where l: "len s = Finite l" "1 / 10 ^ 6 < l" "seg_chain (c + l) ss T"
    by (auto split: jsnum.splits)
  from Cons.IH[OF l(3)] l(2) show ?case by simp
qed

lemma seg_chain_each:
  "seg_chain c segs T \<Longrightarrow> s \<in> set segs \<Longrightarrow>
   \<exists>a l. cumStart s = Finite a \<and> len s = Finite l \<and> 1 / 10 ^ 6 < l \<and> cumEnd s = Finite (a + l)
         \<and> c \<le> a \<and> a + l \<le> T"
proof (induction segs arbitrary: c)
  case Nil
  then show ?case by simp
next
  case (Cons s0 ss)
  from Cons.prems(1) obtain l where l: "cumStart s0 = Finite c" "len s0 = Finite l" "1 / 10 ^ 6 < l"
    "cumEnd s0 = Finite (c + l)" "seg_chain (c + l) ss T"
    by (auto split: jsnum.splits)
  show ?case
  proof (cases "s = s0")
    case True
    then show ?thesis using l seg_chain_mono[OF l(5)] by auto
  next
    case False
    then have "s \<in> set ss" using Cons.prems(2) by simp
    from Cons.IH[OF l(5) this] obtain a l' where
      "cumStart s = Finite a \<and> len s = Finite l' \<and> 1 / 10 ^ 6 < l' \<and> cumEnd s = Finite (a + l')
         \<and> c + l \<le> a \<and> a + l' \<le> T" by blast
    then show ?thesis using l(3) by (intro exI[of _ a] exI[of _ l']) simp
  qed
qed

lemma seg_chain_first: "seg_chain c segs T \<Longrightarrow> segs \<noteq> [] \<Longrightarrow> cumStart (segs ! 0) = Finite c"
  by (cases segs) simp_all

lemma seg_chain_adjacent:
  "seg_chain c segs T \<Longrightarrow> Suc i < length segs \<Longrightarrow> cumStart (segs ! Suc i) = cumEnd (segs ! i)"
proof (induction segs arbitrary: c i)
  case Nil
  then show ?case by simp
next
  case (Cons s ss)
  from Cons.prems(1) obtain l where l: "cumStart s = Finite c" "len s = Finite l"
    "cumEnd s = Finite (c + l)" "seg_chain (c + l) ss T"
    by (auto split: jsnum.splits)
  show ?case
  proof (cases i)
    case 0
    have "ss \<noteq> []" using Cons.prems(2) 0 by auto
    from seg_chain_first[OF l(4) this] show ?thesis using 0 l by simp
  next
    case (Suc k)
    then show ?thesis using Cons.IH[OF l(4), of k] Cons.prems(2) by simp
  qed
qed

lemma seg_chain_order:
  "seg_chain c segs T \<Longrightarrow> i < j \<Longrightarrow> j < length segs \<Longrightarrow>
   jle (cumEnd (segs ! i)) (cumStart (segs ! j))"
proof (induction segs arbitrary: c i j)
  case Nil
  then show ?case by simp
next
  case (Cons s ss)
  from Cons.prems(1) obtain l where l: "cumStart s = Finite c" "len s = Finite l"
    "cumEnd s = Finite (c + l)" "seg_chain (c + l) ss T"
    by (auto split: jsnum.splits)
  obtain j' where j': "j = Suc j'" using Cons.prems(2) by (cases j) auto
  have jl: "j' < length ss" using Cons.prems(3) j' by simp
  show ?case
  proof (cases i)
    case 0
    have "ss ! j' \<in> set ss" using jl by simp
    from seg_chain_each[OF l(4) this] obtain a where "cumStart (ss ! j') = Finite a" "c + l \<le> a"
      by blast
    then show ?thesis using 0 j' l by simp
  next
    case (Suc k)
    then show ?thesis using Cons.IH[OF l(4), of k j'] Cons.prems(2) jl j' by simp
  qed
qed

lemma seg_chain_total: "seg_chain c segs T \<Longrightarrow> foldl jadd (Finite c) (map len segs) = Finite T"
proof (induction segs arbitrary: c)
  case Nil
  then show ?case by simp
next
  case (Cons s ss)
  from Cons.prems(1) obtain l where l: "len s = Finite l" "seg_chain (c + l) ss T"
    by (auto split: jsnum.splits)
  from Cons.IH[OF l(2)] show ?case using l(1) by simp
qed

lemma buildPreview_chain:
  assumes "\<not> falsy (scaleFactor cfg)"
  shows "\<exists>T. totalLength (buildPreviewFromGCode cfg text pv) = Finite T
         \<and> seg_chain 0 (segments (buildPreviewFromGCode cfg text pv)) T"
proof -
  have "\<exists>T. snd (build_segments (preview_moves cfg text) (Finite 0) []) = Finite T
           \<and> seg_chain 0 (fst (build_segments (preview_moves cfg text) (Finite 0) [])) T"
    by (rule build_segments_chain[OF preview_moves_finite[OF assms] refl]) simp
  then show ?thesis by (simp add: buildPreviewFromGCode_def Let_def)
qed

text \<open>
  Claim C8. For a scale factor that is neither \<open>0\<close> nor \<^verbatim>\<open>NaN\<close> (\<^verbatim>\<open>updateSettings\<close> keeps it so), the
  segments built by \<^verbatim>\<open>buildPreviewFromGCode\<close> from any text satisfy: every segment has finite
  \<open>cumStart\<close> and \<open>len\<close>, \<open>len > 1e-6\<close> and \<open>cumEnd = cumStart + len\<close>; the first starts at \<open>0\<close>;
  each starts where the one before ends; an earlier segment ends no later than a later one
  starts; and \<open>totalLength\<close> is the sum of the lengths, added in order from \<open>0\<close>.
\<close>

theorem segment_partition:
  assumes "\<not> falsy (scaleFactor cfg)"
  shows "(\<forall>seg \<in> set (segments (buildPreviewFromGCode cfg text pv)).
            \<exists>a l. cumStart seg = Finite a \<and> len seg = Finite l \<and> 1 / 10 ^ 6 < l
                  \<and> cumEnd seg = Finite (a + l) \<and> cumEnd seg = jadd (cumStart seg) (len seg)
                  \<and> \<not> jle (len seg) (Finite (1 / 10 ^ 6)))
       \<and> (segments (buildPreviewFromGCode cfg text pv) \<noteq> [] \<longrightarrow>
            cumStart (segments (buildPreviewFromGCode cfg text pv) ! 0) = Finite 0)
       \<and> (\<forall>i. Suc i < length (segments (buildPreviewFromGCode cfg text pv)) \<longrightarrow>
            cumStart (segments (buildPreviewFromGCode cfg text pv) ! Suc i)
              = cumEnd (segments (buildPreviewFromGCode cfg text pv) ! i))
       \<and> (\<forall>i j. i < j \<and> j < length (segments (buildPreviewFromGCode cfg text pv)) \<longrightarrow>
            jle (cumEnd (segments (buildPreviewFromGCode cfg text pv) ! i))
                (cumStart (segments (buildPreviewFromGCode cfg text pv) ! j)))
       \<and> totalLength (buildPreviewFromGCode cfg text pv)
           = foldl jadd (Finite 0) (map len (segments (buildPreviewFromGCode cfg text pv)))"
proof -
  define segs where "segs = segments (buildPreviewFromGCode cfg text pv)"
  obtain T where T: "totalLength (buildPreviewFromGCode cfg text pv) = Finite T" "seg_chain 0 segs T"
    using buildPreview_chain[OF assms, of "text" pv] by (auto simp: segs_def)
  have a: "\<forall>seg \<in> set segs.
            \<exists>a l. cumStart seg = Finite a \<and> len seg = Finite l \<and> 1 / 10 ^ 6 < l
                  \<and> cumEnd seg = Finite (a + l) \<and> cumEnd seg = jadd (cumStart seg) (len seg)
                  \<and> \<not> jle (len seg) (Finite (1 / 10 ^ 6))"
  proof
    fix seg assume "seg \<in> set segs"
    from seg_chain_each[OF T(2) this] obtain a l where
      "cumStart seg = Finite a \<and> len seg = Finite l \<and> 1 / 10 ^ 6 < l \<and> cumEnd seg = Finite (a + l)"
      by blast
    then show "\<exists>a l. cumStart seg = Finite a \<and> len seg = Finite l \<and> 1 / 10 ^ 6 < l
                  \<and> cumEnd seg = Finite (a + l) \<and> cumEnd seg = jadd (cumStart seg) (len seg)
                  \<and> \<not> jle (len seg) (Finite (1 / 10 ^ 6))"
      by (intro exI[of _ a] exI[of _ l]) simp
  qed
  have b: "segs \<noteq> [] \<longrightarrow> cumStart (segs ! 0) = Finite 0"
    using seg_chain_first[OF T(2)] by simp
  have c: "\<forall>i. Suc i < length segs \<longrightarrow> cumStart (segs ! Suc i) = cumEnd (segs ! i)"
    using seg_chain_adjacent[OF T(2)] by simp
  have d: "\<forall>i j. i < j \<and> j < length segs \<longrightarrow> jle (cumEnd (segs ! i)) (cumStart (segs ! j))"
    using seg_chain_order[OF T(2)] by simp
  have e: "totalLength (buildPreviewFromGCode cfg text pv) = foldl jadd (Finite 0) (map len segs)"
    using seg_chain_total[OF T(2)] T(1) by simp
  show ?thesis using a b c d e unfolding segs_def by blast
qed

lemma preview_example_moves:
  "preview_moves defaultSettings ''G1 X0 Y0\<newline>G1 X3 Y4 C90''
     = [\<lparr>mx = Finite 0, my = Finite 0, mc = None\<rparr>, \<lparr>mx = Finite 30, my = Finite (- 40), mc = Some 90\<rparr>]"
  by code_simp

lemma sqrt_2500: "sqrt 2500 = 50"
  by (rule real_sqrt_unique) simp_all

lemma preview_example_built:
  "buildPreviewFromGCode defaultSettings ''G1 X0 Y0\<newline>G1 X3 Y4 C90'' initialPreview
     = initialPreview \<lparr> segments :=
           [\<lparr> x1 = Finite 0, y1 = Finite 0, x2 = Finite 30, y2 = Finite (- 40), len = Finite 50,
              cumStart = Finite 0, cumEnd = Finite 50, angle = Some 90, angleDiff = 0 \<rparr>],
         totalLength := Finite 50, currentDist := Finite 0, gcodeLoaded := True \<rparr>"
  by (simp add: buildPreviewFromGCode_def preview_example_moves Let_def jsub_def sqrt_2500)

theorem segment_partition_witness:
  "\<not> falsy (scaleFactor defaultSettings)
   \<and> map len (segments (buildPreviewFromGCode defaultSettings ''G1 X0 Y0\<newline>G1 X3 Y4 C90'' initialPreview))
       = [Finite 50]
   \<and> totalLength (buildPreviewFromGCode defaultSettings ''G1 X0 Y0\<newline>G1 X3 Y4 C90'' initialPreview)
       = foldl jadd (Finite 0)
           (map len (segments (buildPreviewFromGCode defaultSettings ''G1 X0 Y0\<newline>G1 X3 Y4 C90'' initialPreview)))"
proof -
  have h: "\<not> falsy (scaleFactor defaultSettings)" by (simp add: falsy_def defaultSettings_def)
  have a: "map len (segments (buildPreviewFromGCode defaultSettings ''G1 X0 Y0\<newline>G1 X3 Y4 C90'' initialPreview))
       = [Finite 50]" by (simp add: preview_example_built)
  show ?thesis
    using segment_partition[OF h, of "''G1 X0 Y0\<newline>G1 X3 Y4 C90''" initialPreview] h a by blast
qed
section \<open>The end of the playback path in binary64\<close>

text \<open>The path of the two lines \<^verbatim>\<open>G1 X1 Y0\<close> and \<^verbatim>\<open>G1 X0.3 Y0\<close> is built and queried at its total
  length.\<close>

lemmas clean_eval = trim_def isSpace_def isLineTerminator_def num_capture_def isDigit_def
  parseFloat_def dec_val_def digit_val_def test_letter_def Let_def clean_line_def

lemma path_example_split: "split_lines ''G1 X1 Y0\<newline>G1 X0.3 Y0'' = [''G1 X1 Y0'', ''G1 X0.3 Y0'']"
  by code_simp

lemma fl_tenth: "fl (1 / 10) = 3602879701896397 / 36028797018963968"
  by (simp add: fl_eval)

lemma path_example_line1:
  "preview_line_fl binary64Settings ((None, None, None), []) ''G1 X1 Y0''
     = ((Some 1, Some 0, None), [\<lparr>mx = Finite 10, my = Finite 0, mc = None\<rparr>])"
  by (simp add: preview_line_fl_def clean_eval update_last_fl_def binary64Settings_def fl_tenth)
     (simp add: fl_eval)

lemma path_example_line2:
  "preview_line_fl binary64Settings ((Some 1, Some 0, None), ms) ''G1 X0.3 Y0''
     = ((Some (5404319552844595 / 18014398509481984), Some 0, None),
        ms @ [\<lparr>mx = Finite (3 - 1 / 2 ^ 51), my = Finite 0, mc = None\<rparr>])"
  by (simp add: preview_line_fl_def clean_eval update_last_fl_def binary64Settings_def fl_tenth)
     (simp add: fl_eval)

lemma path_example_moves:
  "preview_moves_fl binary64Settings ''G1 X1 Y0\<newline>G1 X0.3 Y0''
     = [\<lparr>mx = Finite 10, my = Finite 0, mc = None\<rparr>,
        \<lparr>mx = Finite (3 - 1 / 2 ^ 51), my = Finite 0, mc = None\<rparr>]"
  unfolding preview_moves_fl_def path_example_split foldl_Cons foldl_Nil path_example_line1 path_example_line2
  by simp

lemma sqrt_49: "sqrt 49 = 7"
  by (rule real_sqrt_unique) simp_all

lemma path_example_built:
  "buildPreviewFromGCode_fl binary64Settings ''G1 X1 Y0\<newline>G1 X0.3 Y0'' initialPreview
     = Some example_path"
  unfolding buildPreviewFromGCode_fl_def path_example_moves Let_def
  by (simp add: jsub_def sqrt_49 fl_eval example_path_def)

lemma path_example_at_end:
  "map_option pos_x (distToPoint_fl example_path (Finite 7)) = Some (Finite 3)"
  by (simp add: distToPoint_fl_def example_path_def initialPreview_def jsub_def fl_eval)

lemma path_example_beyond:
  "map_option pos_x (distToPoint_fl example_path (Finite 8)) = Some (Finite (3 - 1 / 2 ^ 51))"
  by (simp add: distToPoint_fl_def example_path_def initialPreview_def jsub_def fl_eval)

text \<open>Claim C9 (a query at the total length returns the end point of the final segment). The
  path above has one segment, from \<open>x = 10\<close> to \<open>x = 3 - 2 ^ (-51)\<close>, and the total length \<open>7\<close>.
  The query at \<open>7\<close> takes the interpolating branch with \<open>t = 1\<close>; the difference
  \<open>x2 - x1\<close> rounds to \<open>-7\<close>, and the result is \<open>x = 3\<close>, not the end point. A query beyond the
  path, at \<open>8\<close>, takes the branch after the loop and returns the end point itself.\<close>

theorem distToPoint_end_inexact:
  "buildPreviewFromGCode_fl binary64Settings ''G1 X1 Y0\<newline>G1 X0.3 Y0'' initialPreview
     = Some example_path
   \<and> totalLength example_path = Finite 7
   \<and> x2 (last (segments example_path)) = Finite (3 - 1 / 2 ^ 51)
   \<and> map_option pos_x (distToPoint_fl example_path (Finite 7)) = Some (Finite 3)
   \<and> map_option pos_x (distToPoint_fl example_path (Finite 8)) = Some (Finite (3 - 1 / 2 ^ 51))"
  by (simp add: path_example_built path_example_at_end path_example_beyond) (simp add: example_path_def)


section \<open>The positional program: proofs\<close>

subsection \<open>Splitting a joined text gives the lines back\<close>

lemma lt_free_simps [simp]:
  "lt_free []" "lt_free (c # s) = (\<not> isLineTerminator c \<and> lt_free s)"
  "lt_free (a @ b) = (lt_free a \<and> lt_free b)"
  by (auto simp: lt_free_def)

lemma split_lines_lt_free: "lt_free l \<Longrightarrow> split_lines l = [l]"
  by (induction l) (auto simp: isLineTerminator_def)

lemma split_lines_append:
  "lt_free l \<Longrightarrow> split_lines (l @ CHR 0x0A # rest) = l # split_lines rest"
  by (induction l) (auto simp: isLineTerminator_def)

lemma split_lines_join:
  "list_all lt_free ls \<Longrightarrow> ls \<noteq> [] \<Longrightarrow> split_lines (join_lines ls) = ls"
proof (induction ls rule: join_lines.induct)
  case 1
  then show ?case by simp
next
  case (2 l)
  then show ?case by (simp add: split_lines_lt_free)
next
  case (3 l v va)
  then show ?case by (simp add: split_lines_append)
qed

subsection \<open>Evaluation of the cleaning steps and of a field\<close>

lemma trim_Nil [simp]: "trim [] = []"
  by (simp add: trim_def)

lemma not_digit [simp]: "\<not> isDigit CHR ''.''" "\<not> isDigit CHR ''-''" "\<not> isDigit CHR '' ''"
  by (simp_all add: isDigit_def)

lemma space_not [simp]: "\<not> isSpace CHR '';''" "\<not> isSpace CHR ''(''" "isSpace CHR '' ''"
  "\<not> isSpace CHR ''G''" "\<not> isSpace CHR ''F''" "\<not> isSpace CHR ''M''"
  by (simp_all add: isSpace_def)

lemma update_last_simps [simp]: "update_last None old = old" "update_last (Some m) old = Some (parseFloat m)"
  by (simp_all add: update_last_def)

subsection \<open>The lines of the positional program\<close>

lemma generateGCodeString_lines:
  "generateGCodeString h cfg points r =
     join_lines (base_header h cfg
       @ (if samplePolylinePoints points r = [] then []
          else [ ''G0 Z'' @ formatNum h (Finite (safeHeight cfg)) @ '' ; Safe height'',
                 ''G0 X'' @ formatNum h (jmul (Finite (px (hd (samplePolylinePoints points r)))) (scaleFactor cfg))
                   @ '' Y'' @ formatNum h (jmul (Finite (- py (hd (samplePolylinePoints points r)))) (scaleFactor cfg)),
                 ''G1 Z'' @ formatNum h (Finite (cutDepth cfg)) @ '' F''
                   @ formatNum h (Finite (feedRate cfg)) @ '' ; Plunge to cut depth'' ]
               @ map (base_move h cfg) (tl (samplePolylinePoints points r))
               @ [ ''G0 Z'' @ formatNum h (Finite (safeHeight cfg)) @ '' ; Retract'' ])
       @ [''M2     ; Program end''])"
  by (cases "samplePolylinePoints points r")
     (simp_all add: generateGCodeString_def Let_def drop_Suc)
section \<open>The two oriented generators on a vertical stroke\<close>

text \<open>Both generators are evaluated on the stroke from \<open>(0, 0)\<close> to \<open>(0, 100)\<close> at resolution
  \<open>2\<close>: first the positional program, then the two passes of
  \<^verbatim>\<open>generateOrientedGCodeFromBase\<close> over its lines, then the headings of
  \<^verbatim>\<open>generateOrientedGCodeFromPoints\<close>.\<close>

lemma replicate_small: "replicate 1 c = [c]" "replicate 2 c = [c, c]" "replicate 3 c = [c, c, c]"
  by (simp_all add: numeral_2_eq_2 numeral_3_eq_3)

lemmas fmt_eval = formatNum_def toFixed3_def digits_of.simps digit_char_def Let_def replicate_small

lemma example_fmt:
  "formatNum exampleHost (Finite 5) = ''5.000''"
  "formatNum exampleHost (Finite (- 1)) = ''-1.000''"
  "formatNum exampleHost (Finite 300) = ''300.000''"
  "formatNum exampleHost (Finite 1000) = ''1000.000''"
  "formatNum exampleHost (Finite 0) = ''0.000''"
  "formatNum exampleHost (Finite (- 5)) = ''-5.000''"
  "formatNum exampleHost (Finite (- 10)) = ''-10.000''"
  "formatNum exampleHost (Finite 90) = ''90.000''"
  "formatNum exampleHost (Finite (- 90)) = ''-90.000''"
  by (simp_all add: fmt_eval)

lemma example_poly:
  "samplePolylinePoints [\<lparr>px = 0, py = 0\<rparr>, \<lparr>px = 0, py = 100\<rparr>] 2
     = [\<lparr>px = 0, py = 0\<rparr>, \<lparr>px = 0, py = 50\<rparr>, \<lparr>px = 0, py = 100\<rparr>]"
  by (simp add: samplePolylinePoints_def linear_sweep.simps)


lemma example_base:
  "generateGCodeString exampleHost defaultSettings [\<lparr>px = 0, py = 0\<rparr>, \<lparr>px = 0, py = 100\<rparr>] 2
     = join_lines example_base_lines"
proof -
  have s: "safeHeight defaultSettings = 5" "cutDepth defaultSettings = - 1" "feedRate defaultSettings = 300"
    "rapidRate defaultSettings = 1000" "unit defaultSettings = ''mm''"
    "scaleFactor defaultSettings = Finite (1 / 10)" by (simp_all add: defaultSettings_def)
  have t: "toString exampleHost (Finite (1 / 10)) = ''0.1''" "nowISO exampleHost = ''2024-01-01T00:00:00.000Z''"
    by (simp_all add: toString_def exampleHost_def)
  have m: "base_move exampleHost defaultSettings \<lparr>px = 0, py = 50\<rparr> = ''G1 X0.000 Y-5.000 F300.000''"
    "base_move exampleHost defaultSettings \<lparr>px = 0, py = 100\<rparr> = ''G1 X0.000 Y-10.000 F300.000''"
    by (simp_all add: base_move_def s example_fmt)
  have hd: "base_header exampleHost defaultSettings = take 8 example_base_lines"
    by (simp add: base_header_def s t example_fmt example_base_lines_def)
  show ?thesis
    unfolding generateGCodeString_lines example_poly hd
    by (simp add: s m example_fmt example_base_lines_def del: join_lines.simps)
qed

lemma example_split: "split_lines (join_lines example_base_lines) = example_base_lines"
  by (rule split_lines_join) (simp_all add: example_base_lines_def lt_free_def isLineTerminator_def)

lemmas text_eval = trim_def isSpace_def isLineTerminator_def num_capture_def isDigit_def
  parseFloat_def dec_val_def digit_val_def update_last_def test_letter_def Let_def

lemma pass1_lines:
  "base_pass1_line (None, None, []) ''; TangentCNC G-code'' = (None, None, [])"
  "base_pass1_line (None, None, []) ''; Generated: 2024-01-01T00:00:00.000Z'' = (None, None, [])"
  "base_pass1_line (None, None, []) ''; Units: mm'' = (None, None, [])"
  "base_pass1_line (None, None, []) ''; Scale: 0.1 (canvas pixels to mm)'' = (None, None, [])"
  "base_pass1_line (None, None, []) ''G90    ; Absolute positioning'' = (None, None, [])"
  "base_pass1_line (None, None, []) ''G21   ; Unit: mm'' = (None, None, [])"
  "base_pass1_line (None, None, []) ''G17    ; XY plane'' = (None, None, [])"
  "base_pass1_line (None, None, []) ''F1000.000 ; Rapid feed rate'' = (None, None, [])"
  "base_pass1_line (None, None, []) ''G0 Z5.000 ; Safe height'' = (None, None, [])"
  "base_pass1_line (None, None, []) ''G0 X0.000 Y0.000'' = (Some 0, Some 0, [(0, 0)])"
  by (simp_all add: base_pass1_line_def text_eval)

lemma pass1_lines2:
  "base_pass1_line (Some 0, Some 0, ms) ''G1 Z-1.000 F300.000 ; Plunge to cut depth''
     = (Some 0, Some 0, ms @ [(0, 0)])"
  "base_pass1_line (Some 0, Some 0, ms) ''G1 X0.000 Y-5.000 F300.000''
     = (Some 0, Some (- 5), ms @ [(0, - 5)])"
  "base_pass1_line (Some 0, Some (- 5), ms) ''G1 X0.000 Y-10.000 F300.000''
     = (Some 0, Some (- 10), ms @ [(0, - 10)])"
  "base_pass1_line (Some 0, Some (- 10), ms) ''G0 Z5.000 ; Retract''
     = (Some 0, Some (- 10), ms @ [(0, - 10)])"
  "base_pass1_line (Some 0, Some (- 10), ms) ''M2     ; Program end''
     = (Some 0, Some (- 10), ms @ [(0, - 10)])"
  by (simp_all add: base_pass1_line_def text_eval)

lemma example_pass1:
  "foldl base_pass1_line (None, None, []) example_base_lines
     = (Some 0, Some (- 10), [(0, 0), (0, 0), (0, - 5), (0, - 10), (0, - 10), (0, - 10)])"
  unfolding example_base_lines_def foldl_Cons foldl_Nil pass1_lines pass1_lines2 by simp

lemma angleDeg_vertical_down: "0 < d \<Longrightarrow> angleDeg 0 d = 270"
proof -
  assume "0 < d"
  then have "atan2 (- d) 0 * 180 / pi = - 90" by (simp add: atan2_def)
  moreover have "jsmod (- 90) 360 = - 90" by (simp add: jsmod_def trunc_def ceiling_def)
  moreover have "jsmod 270 360 = 270" by (simp add: jsmod_def trunc_def)
  ultimately show ?thesis by (simp add: angleDeg_def Let_def)
qed

lemma angleDeg_vertical_up: "d < 0 \<Longrightarrow> angleDeg 0 d = 90"
proof -
  assume "d < 0"
  then have "atan2 (- d) 0 * 180 / pi = 90" by (simp add: atan2_def)
  moreover have "jsmod 90 360 = 90" by (simp add: jsmod_def trunc_def)
  moreover have "jsmod 450 360 = 90" by (simp add: jsmod_def trunc_def)
  ultimately show ?thesis by (simp add: angleDeg_def Let_def)
qed

lemma sqrt_25: "sqrt 25 = 5"
  by (rule real_sqrt_unique) simp_all


lemma example_raw_angles:
  "base_raw_angle example_moves 0 = 0" "base_raw_angle example_moves 1 = 0"
  "base_raw_angle example_moves 2 = 90" "base_raw_angle example_moves 3 = 90"
  "base_raw_angle example_moves 4 = 0"
  by (simp_all add: base_raw_angle_def example_moves_def Let_def sqrt_25 angleDeg_vertical_up)

lemma fold180_small: "while_le_m180 (while_gt_180 0) = 0" "while_le_m180 (while_gt_180 90) = 90"
  "while_le_m180 (while_gt_180 270) = - 90"
  by (simp_all add: fold180_id while_gt_180.simps while_le_m180.simps)

lemma example_normalize:
  "normalizeAngle defaultSettings 0 None = 0" "normalizeAngle defaultSettings 0 (Some 0) = 0"
  "normalizeAngle defaultSettings 90 (Some 0) = 90" "normalizeAngle defaultSettings 90 (Some 90) = 90"
  "normalizeAngle defaultSettings 0 (Some 90) = 0"
  "normalizeAngle defaultSettings 270 None = - 90" "normalizeAngle defaultSettings 270 (Some (- 90)) = - 90"
  by (simp_all add: normalizeAngle_def defaultSettings_def Let_def fold180_small)

lemma example_headings_from_points:
  "headings_from_points exampleHost defaultSettings [\<lparr>px = 0, py = 0\<rparr>, \<lparr>px = 0, py = 100\<rparr>] 2
     = [- 90, - 90, - 90]"
proof -
  have f: "first_heading defaultSettings [\<lparr>px = 0, py = 0\<rparr>, \<lparr>px = 0, py = 50\<rparr>, \<lparr>px = 0, py = 100\<rparr>] = - 90"
    by (simp add: first_heading_def angleDeg_vertical_down example_normalize)
  show ?thesis
    unfolding headings_from_points_def example_poly Let_def
    by (simp add: f angleDeg_vertical_down example_normalize)
qed

lemma pass2_through:
  "base_pass2_line exampleHost defaultSettings example_moves st ''; TangentCNC G-code''
     = st \<lparr> p2_outputLines := p2_outputLines st @ [''; TangentCNC G-code''] \<rparr>"
  "base_pass2_line exampleHost defaultSettings example_moves st ''; Generated: 2024-01-01T00:00:00.000Z''
     = st \<lparr> p2_outputLines := p2_outputLines st @ [''; Generated: 2024-01-01T00:00:00.000Z''] \<rparr>"
  "base_pass2_line exampleHost defaultSettings example_moves st ''; Units: mm''
     = st \<lparr> p2_outputLines := p2_outputLines st @ [''; Units: mm''] \<rparr>"
  "base_pass2_line exampleHost defaultSettings example_moves st ''; Scale: 0.1 (canvas pixels to mm)''
     = st \<lparr> p2_outputLines := p2_outputLines st @ [''; Scale: 0.1 (canvas pixels to mm)''] \<rparr>"
  "base_pass2_line exampleHost defaultSettings example_moves st ''G90    ; Absolute positioning''
     = st \<lparr> p2_outputLines := p2_outputLines st @ [''G90    ; Absolute positioning''] \<rparr>"
  "base_pass2_line exampleHost defaultSettings example_moves st ''G21   ; Unit: mm''
     = st \<lparr> p2_outputLines := p2_outputLines st @ [''G21   ; Unit: mm''] \<rparr>"
  "base_pass2_line exampleHost defaultSettings example_moves st ''G17    ; XY plane''
     = st \<lparr> p2_outputLines := p2_outputLines st @ [''G17    ; XY plane''] \<rparr>"
  "base_pass2_line exampleHost defaultSettings example_moves st ''F1000.000 ; Rapid feed rate''
     = st \<lparr> p2_outputLines := p2_outputLines st @ [''F1000.000 ; Rapid feed rate''] \<rparr>"
  "base_pass2_line exampleHost defaultSettings example_moves st ''M2     ; Program end''
     = st \<lparr> p2_outputLines := p2_outputLines st @ [''M2     ; Program end''] \<rparr>"
  by (simp_all add: base_pass2_line_def text_eval)

lemma pass2_safe:
  "base_pass2_line exampleHost defaultSettings example_moves
     \<lparr> p2_lastX = None, p2_lastY = None, p2_moveIndex = 0, p2_prevAngle = None,
       p2_outputLines = ol, p2_headings = [] \<rparr> ''G0 Z5.000 ; Safe height''
   = \<lparr> p2_lastX = None, p2_lastY = None, p2_moveIndex = 0, p2_prevAngle = None,
       p2_outputLines = ol @ [''G0 Z5.000 ; Safe height''], p2_headings = [] \<rparr>"
  by (simp add: base_pass2_line_def text_eval)

lemma example_moves_length: "length example_moves = 6"
  by (simp add: example_moves_def)

lemma example_raw_angle_Suc: "base_raw_angle example_moves (Suc 0) = 0"
  using example_raw_angles(2) by simp

lemma pass2_first:
  "base_pass2_line exampleHost defaultSettings example_moves
     \<lparr> p2_lastX = None, p2_lastY = None, p2_moveIndex = 0, p2_prevAngle = None,
       p2_outputLines = ol, p2_headings = [] \<rparr> ''G0 X0.000 Y0.000''
   = \<lparr> p2_lastX = Some 0, p2_lastY = Some 0, p2_moveIndex = Suc 0, p2_prevAngle = Some 0,
       p2_outputLines = ol @ [''G0 X0.000 Y0.000 C0.000 ; ORI=0.000deg''], p2_headings = [0] \<rparr>"
  by (simp add: base_pass2_line_def text_eval example_moves_length example_raw_angles example_raw_angle_Suc
      example_normalize example_fmt)

lemma pass2_plunge:
  "base_pass2_line exampleHost defaultSettings example_moves
     \<lparr> p2_lastX = Some 0, p2_lastY = Some 0, p2_moveIndex = Suc 0, p2_prevAngle = Some 0,
       p2_outputLines = ol, p2_headings = [0] \<rparr> ''G1 Z-1.000 F300.000 ; Plunge to cut depth''
   = \<lparr> p2_lastX = Some 0, p2_lastY = Some 0, p2_moveIndex = 2, p2_prevAngle = Some 0,
       p2_outputLines = ol @ [''G1 Z-1.000 C0.000 F300.000 ; ORI=0.000deg  Plunge to cut depth''],
       p2_headings = [0, 0] \<rparr>"
  by (simp add: base_pass2_line_def text_eval example_moves_length example_raw_angles example_raw_angle_Suc
      example_normalize example_fmt)

lemma pass2_cut1:
  "base_pass2_line exampleHost defaultSettings example_moves
     \<lparr> p2_lastX = Some 0, p2_lastY = Some 0, p2_moveIndex = 2, p2_prevAngle = Some 0,
       p2_outputLines = ol, p2_headings = [0, 0] \<rparr> ''G1 X0.000 Y-5.000 F300.000''
   = \<lparr> p2_lastX = Some 0, p2_lastY = Some (- 5), p2_moveIndex = 3, p2_prevAngle = Some 90,
       p2_outputLines = ol @ [''G1 X0.000 Y-5.000 C90.000 F300.000 ; ORI=90.000deg''],
       p2_headings = [0, 0, 90] \<rparr>"
  by (simp add: base_pass2_line_def text_eval example_moves_length example_raw_angles example_raw_angle_Suc
      example_normalize example_fmt)

lemma pass2_cut2:
  "base_pass2_line exampleHost defaultSettings example_moves
     \<lparr> p2_lastX = Some 0, p2_lastY = Some (- 5), p2_moveIndex = 3, p2_prevAngle = Some 90,
       p2_outputLines = ol, p2_headings = [0, 0, 90] \<rparr> ''G1 X0.000 Y-10.000 F300.000''
   = \<lparr> p2_lastX = Some 0, p2_lastY = Some (- 10), p2_moveIndex = 4, p2_prevAngle = Some 90,
       p2_outputLines = ol @ [''G1 X0.000 Y-10.000 C90.000 F300.000 ; ORI=90.000deg''],
       p2_headings = [0, 0, 90, 90] \<rparr>"
  by (simp add: base_pass2_line_def text_eval example_moves_length example_raw_angles example_raw_angle_Suc
      example_normalize example_fmt)

lemma pass2_retract:
  "base_pass2_line exampleHost defaultSettings example_moves
     \<lparr> p2_lastX = Some 0, p2_lastY = Some (- 10), p2_moveIndex = 4, p2_prevAngle = Some 90,
       p2_outputLines = ol, p2_headings = [0, 0, 90, 90] \<rparr> ''G0 Z5.000 ; Retract''
   = \<lparr> p2_lastX = Some 0, p2_lastY = Some (- 10), p2_moveIndex = 5, p2_prevAngle = Some 0,
       p2_outputLines = ol @ [''G0 Z5.000 C0.000 ; ORI=0.000deg  Retract''],
       p2_headings = [0, 0, 90, 90, 0] \<rparr>"
  by (simp add: base_pass2_line_def text_eval example_moves_length example_raw_angles example_raw_angle_Suc
      example_normalize example_fmt)

lemma example_pass2:
  "foldl (base_pass2_line exampleHost defaultSettings example_moves)
     \<lparr> p2_lastX = None, p2_lastY = None, p2_moveIndex = 0, p2_prevAngle = None,
       p2_outputLines = [], p2_headings = [] \<rparr> example_base_lines
   = \<lparr> p2_lastX = Some 0, p2_lastY = Some (- 10), p2_moveIndex = 5, p2_prevAngle = Some 0,
       p2_outputLines =
         [''; TangentCNC G-code'', ''; Generated: 2024-01-01T00:00:00.000Z'', ''; Units: mm'',
          ''; Scale: 0.1 (canvas pixels to mm)'', ''G90    ; Absolute positioning'',
          ''G21   ; Unit: mm'', ''G17    ; XY plane'', ''F1000.000 ; Rapid feed rate'',
          ''G0 Z5.000 ; Safe height'', ''G0 X0.000 Y0.000 C0.000 ; ORI=0.000deg'',
          ''G1 Z-1.000 C0.000 F300.000 ; ORI=0.000deg  Plunge to cut depth'',
          ''G1 X0.000 Y-5.000 C90.000 F300.000 ; ORI=90.000deg'',
          ''G1 X0.000 Y-10.000 C90.000 F300.000 ; ORI=90.000deg'',
          ''G0 Z5.000 C0.000 ; ORI=0.000deg  Retract'', ''M2     ; Program end''],
       p2_headings = [0, 0, 90, 90, 0] \<rparr>"
  unfolding example_base_lines_def foldl_Cons foldl_Nil
  by (simp add: pass2_through pass2_safe pass2_first pass2_plunge pass2_cut1 pass2_cut2 pass2_retract)

lemma example_headings_from_base:
  "headings_from_base exampleHost defaultSettings
     (generateGCodeString exampleHost defaultSettings [\<lparr>px = 0, py = 0\<rparr>, \<lparr>px = 0, py = 100\<rparr>] 2)
   = [0, 0, 90, 90, 0]"
  unfolding headings_from_base_def base_pass2_def Let_def example_base example_split example_pass1
  by (simp add: example_pass2 [unfolded example_moves_def])

text \<open>Claim C2 (headings of the two oriented generators). On the stroke from \<open>(0, 0)\<close> to
  \<open>(0, 100)\<close>, which the positional program cuts from \<open>Y0\<close> to \<open>Y-10\<close>, the generator working
  from the polyline writes the heading \<open>-90\<close> at each of its three moves. The generator working
  from the positional program of the same polyline writes five headings: \<open>0\<close> at the first
  move, whose successor is the plunge line at the same position, \<open>0\<close> at the plunge and the
  retract line, and \<open>90\<close> at the two cutting moves, because \<open>angleDeg\<close> negates a difference of
  G-code coordinates whose Y axis is flipped already. The headings are not identical.\<close>

theorem oriented_generators_disagree:
  "headings_from_points exampleHost defaultSettings
       [\<lparr>px = 0, py = 0\<rparr>, \<lparr>px = 0, py = 100\<rparr>] 2 = [- 90, - 90, - 90]
   \<and> headings_from_base exampleHost defaultSettings
       (generateGCodeString exampleHost defaultSettings
          [\<lparr>px = 0, py = 0\<rparr>, \<lparr>px = 0, py = 100\<rparr>] 2) = [0, 0, 90, 90, 0]"
  by (simp only: example_headings_from_points example_headings_from_base simp_thms)

section \<open>The round trip through the parser of the second copy\<close>

text \<open>The parser of the second copy is run on the positional program of the stroke from
  \<open>(0, 0)\<close> to \<open>(0, 100)\<close>.\<close>

lemma parse2_lines:
  "parseGCode2_line (None, None, []) ''; TangentCNC G-code'' = (None, None, [])"
  "parseGCode2_line (None, None, []) ''; Generated: 2024-01-01T00:00:00.000Z'' = (None, None, [])"
  "parseGCode2_line (None, None, []) ''; Units: mm'' = (None, None, [])"
  "parseGCode2_line (None, None, []) ''; Scale: 0.1 (canvas pixels to mm)'' = (None, None, [])"
  "parseGCode2_line (None, None, []) ''G90    ; Absolute positioning'' = (None, None, [])"
  "parseGCode2_line (None, None, []) ''G21   ; Unit: mm'' = (None, None, [])"
  "parseGCode2_line (None, None, []) ''G17    ; XY plane'' = (None, None, [])"
  "parseGCode2_line (None, None, []) ''F1000.000 ; Rapid feed rate'' = (None, None, [])"
  "parseGCode2_line (None, None, []) ''G0 Z5.000 ; Safe height'' = (None, None, [])"
  "parseGCode2_line (None, None, []) ''G0 X0.000 Y0.000''
     = (Some 0, Some 0, [\<lparr>sx = Finite 0, sy = Finite 0\<rparr>])"
  by (simp_all add: parseGCode2_line_def clean_eval update_last_fl_def fl_zero)

lemma parse2_lines2:
  "parseGCode2_line (Some 0, Some 0, out) ''G1 Z-1.000 F300.000 ; Plunge to cut depth''
     = (Some 0, Some 0, out @ [\<lparr>sx = Finite 0, sy = Finite 0\<rparr>])"
  "parseGCode2_line (Some 0, Some 0, out) ''G1 X0.000 Y-5.000 F300.000''
     = (Some 0, Some (- 5), out @ [\<lparr>sx = Finite 0, sy = Finite (- 5)\<rparr>])"
  "parseGCode2_line (Some 0, Some (- 5), out) ''G1 X0.000 Y-10.000 F300.000''
     = (Some 0, Some (- 10), out @ [\<lparr>sx = Finite 0, sy = Finite (- 10)\<rparr>])"
  "parseGCode2_line (Some 0, Some (- 10), out) ''G0 Z5.000 ; Retract''
     = (Some 0, Some (- 10), out @ [\<lparr>sx = Finite 0, sy = Finite (- 10)\<rparr>])"
  "parseGCode2_line (Some 0, Some (- 10), out) ''M2     ; Program end''
     = (Some 0, Some (- 10), out)"
  by (simp_all add: parseGCode2_line_def clean_eval update_last_fl_def fl_eval)

lemma example_parse2:
  "parseGCode2 (join_lines example_base_lines)
     = [\<lparr>sx = Finite 0, sy = Finite 0\<rparr>, \<lparr>sx = Finite 0, sy = Finite 0\<rparr>,
        \<lparr>sx = Finite 0, sy = Finite (- 5)\<rparr>, \<lparr>sx = Finite 0, sy = Finite (- 10)\<rparr>,
        \<lparr>sx = Finite 0, sy = Finite (- 10)\<rparr>]"
  unfolding parseGCode2_def example_split
  unfolding example_base_lines_def foldl_Cons foldl_Nil parse2_lines parse2_lines2
  by simp

text \<open>Claim C1 (parsing the positional program gives the polyline back). The polyline of the
  stroke has the samples \<open>(0, 0)\<close>, \<open>(0, 50)\<close> and \<open>(0, 100)\<close>. The parser of the second copy
  returns, from the program generated for it with the scale factor \<open>0.1\<close>, the five pairs
  \<open>(0, 0)\<close>, \<open>(0, 0)\<close>, \<open>(0, -5)\<close>, \<open>(0, -10)\<close>, \<open>(0, -10)\<close>: the coordinates of the program in
  machine units, not divided by the scale factor.\<close>

theorem roundtrip_second_parser:
  "samplePolylinePoints [\<lparr>px = 0, py = 0\<rparr>, \<lparr>px = 0, py = 100\<rparr>] 2
     = [\<lparr>px = 0, py = 0\<rparr>, \<lparr>px = 0, py = 50\<rparr>, \<lparr>px = 0, py = 100\<rparr>]
   \<and> parseGCode2 (generateGCodeString exampleHost defaultSettings
         [\<lparr>px = 0, py = 0\<rparr>, \<lparr>px = 0, py = 100\<rparr>] 2)
     = [\<lparr>sx = Finite 0, sy = Finite 0\<rparr>, \<lparr>sx = Finite 0, sy = Finite 0\<rparr>,
        \<lparr>sx = Finite 0, sy = Finite (- 5)\<rparr>, \<lparr>sx = Finite 0, sy = Finite (- 10)\<rparr>,
        \<lparr>sx = Finite 0, sy = Finite (- 10)\<rparr>]"
  by (simp only: example_poly example_base example_parse2 simp_thms)

section \<open>The end of the sampled polyline in binary64\<close>

text \<open>The step \<^verbatim>\<open>1 / 10\<close> and the bound \<^verbatim>\<open>1 + 1e-9\<close> as doubles, then the ten iterations of the
  loop for the segment from \<open>(0, 0)\<close> to \<open>(100, 0)\<close>: the tenth value of \<open>t\<close> is \<open>1 - 2 ^ (-53)\<close>, the
  eleventh exceeds the bound.\<close>

lemma fl_step: "fl (1 / 10) = 3602879701896397 / 36028797018963968"
  by (simp add: fl_eval)

lemma fl_bound: "fl (1 + fl (1 / 10 ^ 9)) = 281474976992131 / 281474976710656"
  by (simp add: fl_eval)

lemma sweep_1:
  "linear_sweep_fl \<lparr>px = 0, py = 0\<rparr> \<lparr>px = 100, py = 0\<rparr> 10 (3602879701896397 / 36028797018963968) poly
     = linear_sweep_fl \<lparr>px = 0, py = 0\<rparr> \<lparr>px = 100, py = 0\<rparr> 10 (3602879701896397 / 18014398509481984)
         (poly @ [\<lparr>px = 10, py = 0\<rparr>])"
  by (subst linear_sweep_fl.simps) (simp add: fl_eval)

lemma sweep_2:
  "linear_sweep_fl \<lparr>px = 0, py = 0\<rparr> \<lparr>px = 100, py = 0\<rparr> 10 (3602879701896397 / 18014398509481984) poly
     = linear_sweep_fl \<lparr>px = 0, py = 0\<rparr> \<lparr>px = 100, py = 0\<rparr> 10 (1351079888211149 / 4503599627370496)
         (poly @ [\<lparr>px = 20, py = 0\<rparr>])"
  by (subst linear_sweep_fl.simps) (simp add: fl_eval)

lemma sweep_3:
  "linear_sweep_fl \<lparr>px = 0, py = 0\<rparr> \<lparr>px = 100, py = 0\<rparr> 10 (1351079888211149 / 4503599627370496) poly
     = linear_sweep_fl \<lparr>px = 0, py = 0\<rparr> \<lparr>px = 100, py = 0\<rparr> 10 (3602879701896397 / 9007199254740992)
         (poly @ [\<lparr>px = 8444249301319681 / 281474976710656, py = 0\<rparr>])"
  by (subst linear_sweep_fl.simps) (simp add: fl_eval)

lemma sweep_4:
  "linear_sweep_fl \<lparr>px = 0, py = 0\<rparr> \<lparr>px = 100, py = 0\<rparr> 10 (3602879701896397 / 9007199254740992) poly
     = linear_sweep_fl \<lparr>px = 0, py = 0\<rparr> \<lparr>px = 100, py = 0\<rparr> 10 (1 / 2)
         (poly @ [\<lparr>px = 40, py = 0\<rparr>])"
  by (subst linear_sweep_fl.simps) (simp add: fl_eval)

lemma sweep_5:
  "linear_sweep_fl \<lparr>px = 0, py = 0\<rparr> \<lparr>px = 100, py = 0\<rparr> 10 (1 / 2) poly
     = linear_sweep_fl \<lparr>px = 0, py = 0\<rparr> \<lparr>px = 100, py = 0\<rparr> 10 (5404319552844595 / 9007199254740992)
         (poly @ [\<lparr>px = 50, py = 0\<rparr>])"
  by (subst linear_sweep_fl.simps) (simp add: fl_eval)

lemma sweep_6:
  "linear_sweep_fl \<lparr>px = 0, py = 0\<rparr> \<lparr>px = 100, py = 0\<rparr> 10 (5404319552844595 / 9007199254740992) poly
     = linear_sweep_fl \<lparr>px = 0, py = 0\<rparr> \<lparr>px = 100, py = 0\<rparr> 10 (3152519739159347 / 4503599627370496)
         (poly @ [\<lparr>px = 60, py = 0\<rparr>])"
  by (subst linear_sweep_fl.simps) (simp add: fl_eval)

lemma sweep_7:
  "linear_sweep_fl \<lparr>px = 0, py = 0\<rparr> \<lparr>px = 100, py = 0\<rparr> 10 (3152519739159347 / 4503599627370496) poly
     = linear_sweep_fl \<lparr>px = 0, py = 0\<rparr> \<lparr>px = 100, py = 0\<rparr> 10 (7205759403792793 / 9007199254740992)
         (poly @ [\<lparr>px = 70, py = 0\<rparr>])"
  by (subst linear_sweep_fl.simps) (simp add: fl_eval)

lemma sweep_8:
  "linear_sweep_fl \<lparr>px = 0, py = 0\<rparr> \<lparr>px = 100, py = 0\<rparr> 10 (7205759403792793 / 9007199254740992) poly
     = linear_sweep_fl \<lparr>px = 0, py = 0\<rparr> \<lparr>px = 100, py = 0\<rparr> 10 (2026619832316723 / 2251799813685248)
         (poly @ [\<lparr>px = 80, py = 0\<rparr>])"
  by (subst linear_sweep_fl.simps) (simp add: fl_eval)

lemma sweep_9:
  "linear_sweep_fl \<lparr>px = 0, py = 0\<rparr> \<lparr>px = 100, py = 0\<rparr> 10 (2026619832316723 / 2251799813685248) poly
     = linear_sweep_fl \<lparr>px = 0, py = 0\<rparr> \<lparr>px = 100, py = 0\<rparr> 10 (9007199254740991 / 9007199254740992)
         (poly @ [\<lparr>px = 6333186975989759 / 70368744177664, py = 0\<rparr>])"
  by (subst linear_sweep_fl.simps) (simp add: fl_eval)

lemma sweep_10:
  "linear_sweep_fl \<lparr>px = 0, py = 0\<rparr> \<lparr>px = 100, py = 0\<rparr> 10 (9007199254740991 / 9007199254740992) poly
     = linear_sweep_fl \<lparr>px = 0, py = 0\<rparr> \<lparr>px = 100, py = 0\<rparr> 10 (4953959590107545 / 4503599627370496)
         (poly @ [\<lparr>px = 7036874417766399 / 70368744177664, py = 0\<rparr>])"
  by (subst linear_sweep_fl.simps) (simp add: fl_eval)

lemma sweep_end:
  "linear_sweep_fl \<lparr>px = 0, py = 0\<rparr> \<lparr>px = 100, py = 0\<rparr> 10 (4953959590107545 / 4503599627370496) poly = Some poly"
  by (subst linear_sweep_fl.simps) (simp add: fl_eval)

lemma sampler_fl_example:
  "samplePolylinePoints_fl [\<lparr>px = 0, py = 0\<rparr>, \<lparr>px = 100, py = 0\<rparr>] 10
     = Some [\<lparr>px = 0, py = 0\<rparr>, \<lparr>px = 10, py = 0\<rparr>, \<lparr>px = 20, py = 0\<rparr>, \<lparr>px = 8444249301319681 / 281474976710656, py = 0\<rparr>, \<lparr>px = 40, py = 0\<rparr>, \<lparr>px = 50, py = 0\<rparr>, \<lparr>px = 60, py = 0\<rparr>, \<lparr>px = 70, py = 0\<rparr>, \<lparr>px = 80, py = 0\<rparr>, \<lparr>px = 6333186975989759 / 70368744177664, py = 0\<rparr>, \<lparr>px = 7036874417766399 / 70368744177664, py = 0\<rparr>]"
  unfolding samplePolylinePoints_fl_def Let_def
  by (simp add: fl_step sweep_1 sweep_2 sweep_3 sweep_4 sweep_5 sweep_6 sweep_7 sweep_8 sweep_9 sweep_10 sweep_end)

text \<open>In exact arithmetic the same sweep ends on the second control point.\<close>

lemma sampler_exact_example:
  "last (samplePolylinePoints [\<lparr>px = 0, py = 0\<rparr>, \<lparr>px = 100, py = 0\<rparr>] 10)
     = \<lparr>px = 100, py = 0\<rparr>"
  by (simp add: samplePolylinePoints_def linear_sweep.simps)

text \<open>Claim C3 (the sampled polyline ends exactly on the last control point). For the control
  points \<open>(0, 0)\<close> and \<open>(100, 0)\<close> and resolution \<open>10\<close> the sampler returns eleven samples in
  binary64 arithmetic; the first is \<open>(0, 0)\<close>, the last has the abscissa \<open>100 - 2 ^ (-46)\<close>, the
  double just below \<open>100\<close>, and not that of the last control point.\<close>

theorem sampler_end_inexact:
  "map_option hd (samplePolylinePoints_fl [\<lparr>px = 0, py = 0\<rparr>, \<lparr>px = 100, py = 0\<rparr>] 10)
     = Some \<lparr>px = 0, py = 0\<rparr>
   \<and> map_option last (samplePolylinePoints_fl [\<lparr>px = 0, py = 0\<rparr>, \<lparr>px = 100, py = 0\<rparr>] 10)
     = Some \<lparr>px = 100 - 1 / 2 ^ 46, py = 0\<rparr>
   \<and> map_option length (samplePolylinePoints_fl [\<lparr>px = 0, py = 0\<rparr>, \<lparr>px = 100, py = 0\<rparr>] 10)
     = Some 11"
  by (simp add: sampler_fl_example)


end
